theory Spec2Isabelle
  imports Main "HOL-Library.Sublist" "HOL-Library.AList"
begin

section \<open>Python values, exceptions and the cloud client\<close>

text \<open>
  The daemon works on the objects that \<^verbatim>\<open>json.loads\<close> produces: dictionaries (insertion
  ordered, here association lists), lists, strings, numbers, booleans and \<^verbatim>\<open>None\<close>.
  Numbers are integers in this model; no function below computes with them.
\<close>

datatype json =
    JNull
  | JBool bool
  | JNum int
  | JStr string
  | JArr "json list"
  | JObj "(string \<times> json) list"

text \<open>
  Exceptions are values. \<open>RequestException code text\<close> is \<^verbatim>\<open>rest.RequestException\<close> with
  its \<^verbatim>\<open>code\<close> attribute and the text \<^verbatim>\<open>str(e)\<close>; \<open>SocketError errno\<close> is \<^verbatim>\<open>socket.error\<close>
  with its first argument; \<open>OtherError\<close> is any other exception the cloud client may
  raise.
\<close>

datatype exn =
    RequestException int string
  | KeyError string
  | TypeError
  | AttributeError
  | IndexError
  | StopIteration
  | UnboundLocalError
  | Exception string
  | SocketError int
  | UnicodeDecodeError
  | OtherError string

text \<open>Truth value of an object, as \<^verbatim>\<open>if x:\<close> tests it.\<close>

fun truthy :: "json \<Rightarrow> bool" where
  "truthy JNull = False"
| "truthy (JBool b) = b"
| "truthy (JNum n) = (n \<noteq> 0)"
| "truthy (JStr s) = (s \<noteq> [])"
| "truthy (JArr xs) = (xs \<noteq> [])"
| "truthy (JObj kvs) = (kvs \<noteq> [])"

fun is_dict :: "json \<Rightarrow> bool" where
  "is_dict (JObj kvs) = True"
| "is_dict _ = False"

fun is_list :: "json \<Rightarrow> bool" where
  "is_list (JArr xs) = True"
| "is_list _ = False"

text \<open>\<^verbatim>\<open>k in v\<close> for a string \<open>k\<close>: a key of a dictionary, an element of a list, a substring
  of a string; any other right operand is a \<^verbatim>\<open>TypeError\<close>.\<close>

fun py_in :: "string \<Rightarrow> json \<Rightarrow> exn + bool" where
  "py_in k (JObj kvs) = Inr (k \<in> fst ` set kvs)"
| "py_in k (JArr xs) = Inr (JStr k \<in> set xs)"
| "py_in k (JStr s) = Inr (sublist k s)"
| "py_in k _ = Inl TypeError"

text \<open>\<^verbatim>\<open>v[k]\<close> for a string \<open>k\<close>.\<close>

fun getitem :: "json \<Rightarrow> string \<Rightarrow> exn + json" where
  "getitem (JObj kvs) k = (case map_of kvs k of Some x \<Rightarrow> Inr x | None \<Rightarrow> Inl (KeyError k))"
| "getitem _ k = Inl TypeError"

text \<open>\<^verbatim>\<open>v.get(k, d)\<close>: only dictionaries have the method.\<close>

fun get_default :: "json \<Rightarrow> string \<Rightarrow> json \<Rightarrow> exn + json" where
  "get_default (JObj kvs) k d = Inr (case map_of kvs k of Some x \<Rightarrow> x | None \<Rightarrow> d)"
| "get_default _ k d = Inl AttributeError"

text \<open>\<^verbatim>\<open>d[k] = x\<close> on a dictionary: an existing key keeps its place, a new one goes last.\<close>

fun setitem :: "json \<Rightarrow> string \<Rightarrow> json \<Rightarrow> json" where
  "setitem (JObj kvs) k x = JObj (AList.update k x kvs)"
| "setitem v k x = v"

text \<open>Sequencing of computations that may raise.\<close>

definition bind :: "exn + 'a \<Rightarrow> ('a \<Rightarrow> exn + 'b) \<Rightarrow> exn + 'b" where
  "bind m f = (case m of Inl e \<Rightarrow> Inl e | Inr x \<Rightarrow> f x)"

text \<open>
  The cloud client \<^verbatim>\<open>azure.arm(method, url, body)\<close> is outside the repository. It is a
  parameter: a deterministic machine over a cloud state \<open>'c\<close> that answers a request with
  either an exception or the pair \<^verbatim>\<open>(result[0], result[1])\<close> of headers and data.
  The request body is either the text \<^verbatim>\<open>json.dumps(obj)\<close> or an object passed as it is.
\<close>

datatype payload = Dumps json | Raw json

record request =
  meth :: string
  url :: string
  body :: "payload option"

type_synonym response = "json \<times> json"

type_synonym 'c azure = "'c \<Rightarrow> request \<Rightarrow> (exn + response) \<times> 'c"

datatype level = DEBUG | INFO | WARNING | ERROR

text \<open>
  The world the daemon acts on: the cloud, the requests sent so far, each with the
  answer it got, the log records
  written by \<^verbatim>\<open>safe_arm_put\<close> and \<^verbatim>\<open>is_resource_ready\<close> (level and the constant part of
  the message), the tokens written to the cluster status file, and the store of the
  network interface objects that \<^verbatim>\<open>set_cluster_ips\<close> mutates in place: its lists
  \<^verbatim>\<open>my_nics\<close> and \<^verbatim>\<open>peer_nics\<close> hold references into this store.
  The field \<open>puts\<close> is not in the source: it keeps the arguments of every call of
  \<^verbatim>\<open>safe_arm_put\<close> (resource, body, description), so that a theorem can say which
  write a reconciler asked for.
\<close>

type_synonym ref = nat

record 'c world =
  cloud :: 'c
  exchanges :: "(request \<times> (exn + response)) list"
  logged :: "(level \<times> string) list"
  status_file :: "string list"
  heap :: "ref \<Rightarrow> json"
  puts :: "(json \<times> json \<times> string) list"

definition arm :: "'c azure \<Rightarrow> string \<Rightarrow> string \<Rightarrow> payload option \<Rightarrow> 'c world
    \<Rightarrow> (exn + response) \<times> 'c world" where
  "arm az m u b w =
     (let r = \<lparr>meth = m, url = u, body = b\<rparr>;
          (res, c') = az (cloud w) r
      in (res, w\<lparr>cloud := c', exchanges := exchanges w @ [(r, res)]\<rparr>))"

definition log :: "level \<Rightarrow> string \<Rightarrow> 'c world \<Rightarrow> 'c world" where
  "log lvl msg w = w\<lparr>logged := logged w @ [(lvl, msg)]\<rparr>"

section \<open>API versions\<close>

definition ARM_VERSIONS :: "(string \<times> (string \<times> string) list) list" where
  "ARM_VERSIONS =
     [(''ha'', [(''network/'', ''2024-05-01''),
               (''resources/'', ''2021-04-01''),
               (''compute/'', ''2019-07-01'')]),
      (''stack'', [(''compute/'', ''2019-07-01''),
                  (''network/'', ''2024-05-01''),
                  (''network/virtualnetworks'', ''2024-05-01''),
                  (''resources/'', ''2021-04-01'')])]"

definition get_api_version :: "string \<Rightarrow> string" where
  "get_api_version resource_id =
     (if sublist ''Microsoft.Network/'' resource_id then ''?api-version=2024-05-01''
      else if sublist ''Microsoft.Compute/'' resource_id then ''?api-version=2019-07-01''
      else ''?api-version=2021-04-01'')"

text \<open>
  \<^verbatim>\<open>resource_id + get_api_version(resource_id)\<close>: the identifier comes out of a cloud
  object, and anything but a string fails in the substring test or in the concatenation.
\<close>

fun url_of :: "json \<Rightarrow> exn + string" where
  "url_of (JStr resource_id) = Inr (resource_id @ get_api_version resource_id)"
| "url_of _ = Inl TypeError"

text \<open>\<^verbatim>\<open>set_api_versions\<close>: the mapping handed to the cloud client for a template name.\<close>

definition set_api_versions :: "string \<Rightarrow> (string \<times> string) list" where
  "set_api_versions templateName =
     (if templateName = ''stack-ha'' then the (map_of ARM_VERSIONS ''stack'')
      else the (map_of ARM_VERSIONS ''ha''))"

section \<open>The edge-zone aware PUT\<close>

text \<open>\<^verbatim>\<open>headers = result[0] if result[0] else {}\<close>, then the code read from it.\<close>

definition response_code :: "response \<Rightarrow> json" where
  "response_code result =
     (let headers = (if truthy (fst result) then fst result else JObj [])
      in case headers of
           JObj kvs \<Rightarrow> (case map_of kvs ''code'' of Some v \<Rightarrow> v | None \<Rightarrow> JNull)
         | _ \<Rightarrow> fst result)"

text \<open>\<^verbatim>\<open>str(response_code) == '200'\<close>: the integer 200 or the string \<^verbatim>\<open>'200'\<close>.\<close>

definition str_is_200 :: "json \<Rightarrow> bool" where
  "str_is_200 v = (v = JNum 200 \<or> v = JStr ''200'')"

definition is_invalid_extended_location :: "exn \<Rightarrow> bool" where
  "is_invalid_extended_location e =
     (case e of
        RequestException code text \<Rightarrow> code = 409 \<and> sublist ''InvalidExtendedLocation'' text
      | _ \<Rightarrow> False)"

fun is_request_exception :: "exn \<Rightarrow> bool" where
  "is_request_exception (RequestException code text) = True"
| "is_request_exception _ = False"

text \<open>Lines 117 to 131: the edge-zone context of the body, \<open>None\<close> when there is none.\<close>

definition extended_zone_context :: "json \<Rightarrow> string \<Rightarrow> 'c world
    \<Rightarrow> (exn + json option) \<times> 'c world" where
  "extended_zone_context body_obj description w =
     (if \<not> is_dict body_obj then (Inr None, w)
      else
        (case bind (py_in ''extendedLocation'' body_obj)
                (\<lambda>present. if present
                   then bind (getitem body_obj ''extendedLocation'') (\<lambda>v. Inr (truthy v))
                   else Inr False) of
           Inl e \<Rightarrow> (Inl e, w)
         | Inr True \<Rightarrow>
             (case getitem body_obj ''extendedLocation'' of
                Inl e \<Rightarrow> (Inl e, w)
              | Inr ctx \<Rightarrow> (Inr (Some ctx), log INFO (''Extended Zone detected for '' @ description) w))
         | Inr False \<Rightarrow>
             (case bind (py_in ''properties'' body_obj)
                     (\<lambda>p. if \<not> p then Inr False
                        else bind (getitem body_obj ''properties'')
                          (\<lambda>props. bind (py_in ''vnetExtendedLocation'' props)
                            (\<lambda>q. if \<not> q then Inr False
                               else bind (getitem props ''vnetExtendedLocation'')
                                 (\<lambda>v. Inr (truthy v))))) of
                Inl e \<Rightarrow> (Inl e, w)
              | Inr False \<Rightarrow> (Inr None, w)
              | Inr True \<Rightarrow>
                  (case bind (getitem body_obj ''properties'')
                          (\<lambda>props. bind (getitem props ''vnetExtendedLocation'')
                            (\<lambda>vnet_ext_loc. bind (get_default vnet_ext_loc ''name'' JNull)
                              (\<lambda>n. bind (get_default vnet_ext_loc ''type'' JNull)
                                (\<lambda>t. Inr (JObj [(''name'', n), (''type'', t)]))))) of
                     Inl e \<Rightarrow> (Inl e, w)
                   | Inr ctx \<Rightarrow>
                       (Inr (Some ctx),
                        log INFO (''Extended Zone detected via vnetExtendedLocation for ''
                                    @ description) w)))))"

text \<open>
  Lines 134 to 169: the first attempt, made when there is a truthy context. The result
  \<open>Inr (Some v)\<close> is \<^verbatim>\<open>return v\<close>; \<open>Inr None\<close> falls through to the standard PUT: after a
  response other than 200, and after the 409 \<^verbatim>\<open>InvalidExtendedLocation\<close> exception.
\<close>

definition enhanced_put :: "'c azure \<Rightarrow> json \<Rightarrow> json \<Rightarrow> payload \<Rightarrow> json \<Rightarrow> string
    \<Rightarrow> 'c world \<Rightarrow> (exn + json option) \<times> 'c world" where
  "enhanced_put az resource_id body_obj body_json ctx description w =
     (let w1 = log INFO (''Attempting Enhanced Extended Zone ARM PUT for '' @ description) w;
          w2 = log DEBUG ''Extended Zone context'' w1;
          body_json_enhanced =
            (if is_dict body_obj \<and> py_in ''extendedLocation'' body_obj = Inr False
             then Dumps (setitem body_obj ''extendedLocation'' ctx)
             else body_json)
      in case url_of resource_id of
           Inl e \<Rightarrow> (Inl e, w2)
         | Inr u \<Rightarrow>
        (case arm az ''PUT'' u (Some body_json_enhanced) w2 of
           (Inr result, w3) \<Rightarrow>
             if str_is_200 (response_code result)
             then (Inr (Some (snd result)),
                   log INFO (''Extended Zone ARM PUT succeeded for '' @ description) w3)
             else (Inr None,
                   log WARNING (''Extended Zone ARM PUT failed for '' @ description) w3)
         | (Inl e, w3) \<Rightarrow>
             if is_request_exception e \<and> is_invalid_extended_location e
             then (Inr None,
                   log WARNING (''Extended Zone ARM PUT failed for '' @ description) w3)
             else (Inl e, w3)))"

text \<open>Lines 171 to 183: the standard PUT; a response other than 200 returns \<^verbatim>\<open>None\<close>.\<close>

definition standard_put :: "'c azure \<Rightarrow> json \<Rightarrow> payload \<Rightarrow> string
    \<Rightarrow> 'c world \<Rightarrow> (exn + json) \<times> 'c world" where
  "standard_put az resource_id body_json description w =
     (case url_of resource_id of
        Inl e \<Rightarrow> (Inl e, w)
      | Inr u \<Rightarrow>
        (case arm az ''PUT'' u (Some body_json) w of
           (Inr result, w1) \<Rightarrow>
             if \<not> str_is_200 (response_code result)
             then (Inr JNull, log ERROR (''Failed '' @ description) w1)
             else (Inr (snd result), log INFO (description @ '' succeeded'') w1)
         | (Inl e, w1) \<Rightarrow> (Inl e, w1)))"

text \<open>Lines 109 to 183: the body of the outer \<^verbatim>\<open>try\<close>.\<close>

definition safe_arm_put_try :: "'c azure \<Rightarrow> json \<Rightarrow> json \<Rightarrow> string
    \<Rightarrow> 'c world \<Rightarrow> (exn + json) \<times> 'c world" where
  "safe_arm_put_try az resource_id body_obj description w =
     (let body_json = (if is_dict body_obj \<or> is_list body_obj then Dumps body_obj
                       else Raw body_obj)
      in case extended_zone_context body_obj description w of
           (Inl e, w1) \<Rightarrow> (Inl e, w1)
         | (Inr None, w1) \<Rightarrow> standard_put az resource_id body_json description w1
         | (Inr (Some ctx), w1) \<Rightarrow>
             if \<not> truthy ctx then standard_put az resource_id body_json description w1
             else
               (case enhanced_put az resource_id body_obj body_json ctx description w1 of
                  (Inl e, w2) \<Rightarrow> (Inl e, w2)
                | (Inr (Some v), w2) \<Rightarrow> (Inr v, w2)
                | (Inr None, w2) \<Rightarrow> standard_put az resource_id body_json description w2))"

text \<open>
  Lines 185 to 202: the handler of the outer \<^verbatim>\<open>try\<close>. It sees every
  \<^verbatim>\<open>rest.RequestException\<close> of the body, also the one the inner handler re-raised.
\<close>

definition safe_arm_put :: "'c azure \<Rightarrow> json \<Rightarrow> json \<Rightarrow> string
    \<Rightarrow> 'c world \<Rightarrow> (exn + json) \<times> 'c world" where
  "safe_arm_put az resource_id body_obj description w =
     (case safe_arm_put_try az resource_id body_obj description
             (w\<lparr>puts := puts w @ [(resource_id, body_obj, description)]\<rparr>) of
        (Inr v, w1) \<Rightarrow> (Inr v, w1)
      | (Inl e, w1) \<Rightarrow>
          if is_request_exception e
          then (if is_invalid_extended_location e
                then (Inr body_obj,
                      log WARNING ''Actual VIP failover may require manual intervention or Azure Support assistance''
                     (log WARNING ''Returning modified object to continue HA daemon operation''
                     (log INFO ''Consider using Azure Support case to resolve Extended Zone ARM API compatibility''
                     (log INFO ''This is a known Azure Extended Zone limitation affecting HA failover operations''
                     (log INFO ''Extended Zone limitation - VIP operation cannot be performed via standard ARM API''
                     (log WARNING (''Extended Zone conflict detected for '' @ description) w1))))))
                else (Inl e, log ERROR (''Error in '' @ description) w1))
          else (Inl e, w1))"

section \<open>Helpers of the reconcilers\<close>

text \<open>
  \<^verbatim>\<open>str.lower()\<close>. A character of the model is a code point below 256. Among these the
  letters that Python maps are the capitals \<^verbatim>\<open>A\<close> to \<^verbatim>\<open>Z\<close> (65 to 90), \<^verbatim>\<open>U+00C0\<close> to
  \<^verbatim>\<open>U+00D6\<close> (192 to 214) and \<^verbatim>\<open>U+00D8\<close> to \<^verbatim>\<open>U+00DE\<close> (216 to 222), each to the code point
  32 places further; the multiplication sign (215), the sharp s (223) and every other
  code point stay.
\<close>

definition lower_char :: "char \<Rightarrow> char" where
  "lower_char c =
     (let n = (of_char c :: nat)
      in if (65 \<le> n \<and> n \<le> 90) \<or> (192 \<le> n \<and> n \<le> 214) \<or> (216 \<le> n \<and> n \<le> 222)
         then char_of (n + 32) else c)"

definition lower :: "string \<Rightarrow> string" where
  "lower s = map lower_char s"

fun py_lower :: "json \<Rightarrow> exn + string" where
  "py_lower (JStr s) = Inr (lower s)"
| "py_lower _ = Inl AttributeError"

text \<open>The elements a \<^verbatim>\<open>for\<close> loop sees: of a dictionary its keys, of a string its
  characters.\<close>

fun py_iter :: "json \<Rightarrow> exn + json list" where
  "py_iter (JArr xs) = Inr xs"
| "py_iter (JObj kvs) = Inr (map (\<lambda>kv. JStr (fst kv)) kvs)"
| "py_iter (JStr s) = Inr (map (\<lambda>c. JStr [c]) s)"
| "py_iter _ = Inl TypeError"

text \<open>\<^verbatim>\<open>v[0]\<close>.\<close>

fun getitem0 :: "json \<Rightarrow> exn + json" where
  "getitem0 (JArr xs) = (case xs of [] \<Rightarrow> Inl IndexError | x # rest \<Rightarrow> Inr x)"
| "getitem0 (JStr s) = (case s of [] \<Rightarrow> Inl IndexError | c # rest \<Rightarrow> Inr (JStr [c]))"
| "getitem0 (JObj kvs) = Inl (KeyError ''0'')"
| "getitem0 _ = Inl TypeError"

text \<open>\<^verbatim>\<open>[x[k] for x in v]\<close>.\<close>

fun getitem_all :: "json list \<Rightarrow> string \<Rightarrow> exn + json list" where
  "getitem_all [] k = Inr []"
| "getitem_all (x # xs) k =
     bind (getitem x k) (\<lambda>y. bind (getitem_all xs k) (\<lambda>ys. Inr (y # ys)))"

text \<open>
  Modelled from the spec: the constants of \<^verbatim>\<open>azure_ha_globals\<close> and
  \<^verbatim>\<open>cloud_failover_status_globals\<close>, which are not among the sources. A VIP record is
  \<^verbatim>\<open>{name, privateIpAddr, publicIpObj?}\<close> and the status tokens are \<^verbatim>\<open>NOT_STARTED\<close>,
  \<^verbatim>\<open>IN_PROGRESS\<close> and \<^verbatim>\<open>DONE\<close>.
\<close>

definition NAME :: string where "NAME = ''name''"
definition PRIVATE_IP_ADDR :: string where "PRIVATE_IP_ADDR = ''privateIpAddr''"
definition PUBLIC_IP_OBJ :: string where "PUBLIC_IP_OBJ = ''publicIpObj''"
definition IN_PROGRESS :: string where "IN_PROGRESS = ''IN_PROGRESS''"

text \<open>
  Modelled from the spec: \<^verbatim>\<open>update_cluster_status_file\<close> of
  \<^verbatim>\<open>cloud_failover_status_utils\<close>, not among the sources; it writes the token to the
  status file.
\<close>

definition update_cluster_status_file :: "string \<Rightarrow> 'c world \<Rightarrow> 'c world" where
  "update_cluster_status_file token w = w\<lparr>status_file := status_file w @ [token]\<rparr>"

text \<open>Programs: functions of the world that return a value or raise.\<close>

type_synonym ('a, 'c) prog = "'c world \<Rightarrow> (exn + 'a) \<times> 'c world"

definition seq :: "('a, 'c) prog \<Rightarrow> ('a \<Rightarrow> ('b, 'c) prog) \<Rightarrow> ('b, 'c) prog" where
  "seq m f w = (case m w of (Inl e, w1) \<Rightarrow> (Inl e, w1) | (Inr x, w1) \<Rightarrow> f x w1)"

definition pure :: "exn + 'a \<Rightarrow> ('a, 'c) prog" where
  "pure r w = (r, w)"

definition ret :: "'a \<Rightarrow> ('a, 'c) prog" where
  "ret x w = (Inr x, w)"

definition raise :: "exn \<Rightarrow> ('a, 'c) prog" where
  "raise e w = (Inl e, w)"

definition effect :: "('c world \<Rightarrow> 'c world) \<Rightarrow> (unit, 'c) prog" where
  "effect f w = (Inr (), f w)"

section \<open>The provisioning gate\<close>

text \<open>\<^verbatim>\<open>r['properties']['provisioningState']\<close>.\<close>

definition provisioning_state :: "json \<Rightarrow> exn + json" where
  "provisioning_state r = bind (getitem r ''properties'') (\<lambda>p. getitem p ''provisioningState'')"

definition is_resource_ready :: "'c azure \<Rightarrow> json \<Rightarrow> (bool, 'c) prog" where
  "is_resource_ready az r =
     seq (pure (provisioning_state r))
       (\<lambda>state.
          if state = JStr ''Succeeded'' then ret True
          else
            seq (pure (getitem r ''id'')) (\<lambda>rid.
            seq (effect (log INFO ''resource: %s'')) (\<lambda>u.
            seq (effect (log INFO ''state   : %s'')) (\<lambda>u.
              if state = JStr ''Failed''
              then
                seq (effect (log INFO ''trying to reset object:'')) (\<lambda>u.
                seq (pure (getitem r ''id'')) (\<lambda>rid.
                seq (safe_arm_put az rid r ''resource reset'') (\<lambda>r1.
                seq (effect (log INFO ''Reset initiated:'')) (\<lambda>u.
                  ret False))))
              else ret False))))"

section \<open>The VIP reconciler\<close>

text \<open>The list \<open>nics\<close> holds references; the first object whose name ends with the suffix
  is returned, by reference.\<close>

fun get_nic_by_suffix :: "(ref \<Rightarrow> json) \<Rightarrow> ref list \<Rightarrow> string \<Rightarrow> exn + ref" where
  "get_nic_by_suffix h [] sfx = Inl (Exception ''cannot find the interface'')"
| "get_nic_by_suffix h (r # rs) sfx =
     bind (getitem (h r) ''name'')
       (\<lambda>n. case n of
              JStr s \<Rightarrow> if suffix sfx s then Inr r else get_nic_by_suffix h rs sfx
            | _ \<Rightarrow> Inl AttributeError)"

text \<open>The loop of \<^verbatim>\<open>get_cluster_ip_index\<close> from position \<open>i\<close> on.\<close>

fun first_index :: "json list \<Rightarrow> json \<Rightarrow> nat \<Rightarrow> exn + int" where
  "first_index [] name i = Inr (- 1)"
| "first_index (ipc # rest) name i =
     bind (getitem ipc NAME) (\<lambda>n.
     bind (py_lower n) (\<lambda>a.
     bind (py_lower name) (\<lambda>b.
       if a = b then Inr (int i) else first_index rest name (Suc i))))"

definition get_cluster_ip_index :: "json \<Rightarrow> json \<Rightarrow> exn + int" where
  "get_cluster_ip_index nic name =
     bind (getitem nic ''properties'') (\<lambda>props.
     bind (getitem props ''ipConfigurations'') (\<lambda>cfgs.
     bind (py_iter cfgs) (\<lambda>ipcs. first_index ipcs name 0)))"

text \<open>\<^verbatim>\<open>nic['properties']['ipConfigurations'].pop(i)\<close>; the object is returned updated.\<close>

definition pop_ipconfig :: "json \<Rightarrow> nat \<Rightarrow> exn + json" where
  "pop_ipconfig nic i =
     bind (getitem nic ''properties'') (\<lambda>props.
     bind (getitem props ''ipConfigurations'') (\<lambda>cfgs.
       case cfgs of
         JArr xs \<Rightarrow>
           if i < length xs
           then Inr (setitem nic ''properties''
                       (setitem props ''ipConfigurations'' (JArr (take i xs @ drop (Suc i) xs))))
           else Inl IndexError
       | _ \<Rightarrow> Inl AttributeError))"

text \<open>\<^verbatim>\<open>nic['properties']['ipConfigurations'].append(x)\<close>.\<close>

definition append_ipconfig :: "json \<Rightarrow> json \<Rightarrow> exn + json" where
  "append_ipconfig nic x =
     bind (getitem nic ''properties'') (\<lambda>props.
     bind (getitem props ''ipConfigurations'') (\<lambda>cfgs.
       case cfgs of
         JArr xs \<Rightarrow>
           Inr (setitem nic ''properties'' (setitem props ''ipConfigurations'' (JArr (xs @ [x]))))
       | _ \<Rightarrow> Inl AttributeError))"

fun remove_attached_vips_loop :: "json list \<Rightarrow> json \<Rightarrow> bool \<Rightarrow> int
    \<Rightarrow> exn + (json \<times> bool \<times> int)" where
  "remove_attached_vips_loop [] peer_nic flag_put peer_index =
     Inr (peer_nic, flag_put, peer_index)"
| "remove_attached_vips_loop (name # names) peer_nic flag_put peer_index =
     bind (get_cluster_ip_index peer_nic name) (\<lambda>i.
       if i \<ge> 0
       then bind (pop_ipconfig peer_nic (nat i))
              (\<lambda>nic1. remove_attached_vips_loop names nic1 True i)
       else remove_attached_vips_loop names peer_nic flag_put i)"

definition remove_attached_vips :: "json list \<Rightarrow> json \<Rightarrow> string
    \<Rightarrow> exn + (json \<times> bool \<times> int)" where
  "remove_attached_vips vip_names peer_nic cni =
     remove_attached_vips_loop vip_names peer_nic False (- 1)"

text \<open>Lines 735 to 742: the public address resource of a VIP, the empty string when it
  has none.\<close>

definition pub_resource_id :: "json \<Rightarrow> json \<Rightarrow> exn + json" where
  "pub_resource_id conf vip =
     bind (py_in PUBLIC_IP_OBJ vip) (\<lambda>present.
       if \<not> present then Inr (JStr [])
       else
         bind (getitem vip PUBLIC_IP_OBJ) (\<lambda>pub.
           if \<not> truthy pub then Inr (JStr [])
           else
             bind (py_in ''/'' pub) (\<lambda>slash.
               if slash then Inr pub
               else
                 bind (getitem conf ''baseId'') (\<lambda>base.
                   case (base, pub) of
                     (JStr b, JStr p) \<Rightarrow>
                       Inr (JStr (b @ ''Microsoft.Network/publicIPAddresses/'' @ p))
                   | _ \<Rightarrow> Inl TypeError))))"

text \<open>Lines 746 to 776: the ipConfiguration appended for a VIP.\<close>

definition new_ipconfig :: "json \<Rightarrow> json \<Rightarrow> json \<Rightarrow> json \<Rightarrow> exn + json" where
  "new_ipconfig vip subnet_id app_security_groups pub =
     bind (getitem vip NAME) (\<lambda>name.
     bind (getitem vip PRIVATE_IP_ADDR) (\<lambda>addr.
       Inr (JObj [(NAME, name),
                  (''properties'', JObj (
                     [(''privateIPAddress'', addr),
                      (''privateIPAllocationMethod'', JStr ''Static''),
                      (''subnet'', JObj [(''id'', subnet_id)]),
                      (''primary'', JBool False),
                      (''privateIPAddressVersion'', JStr ''IPv4''),
                      (''applicationSecurityGroups'', app_security_groups)]
                     @ (if truthy pub then [(''publicIPAddress'', JObj [(''id'', pub)])]
                        else [])))])))"

text \<open>
  Lines 731 to 784: the loop over \<^verbatim>\<open>enumerate(vips)\<close> from position \<open>index\<close> on; \<open>n\<close> is
  \<^verbatim>\<open>len(vips)\<close> and \<open>m\<close> the reference \<^verbatim>\<open>my_nic\<close>.
\<close>

fun add_vips :: "'c azure \<Rightarrow> json \<Rightarrow> string \<Rightarrow> ref \<Rightarrow> json \<Rightarrow> json \<Rightarrow> nat \<Rightarrow> nat
    \<Rightarrow> json list \<Rightarrow> (unit, 'c) prog" where
  "add_vips az conf cni m subnet_id app_security_groups n index [] = ret ()"
| "add_vips az conf cni m subnet_id app_security_groups n index (vip # rest) =
     seq (\<lambda>w. pure (bind (getitem vip NAME) (get_cluster_ip_index (heap w m))) w) (\<lambda>my_index.
       if my_index < 0
       then
         seq (pure (pub_resource_id conf vip)) (\<lambda>pub.
         seq (pure (new_ipconfig vip subnet_id app_security_groups pub)) (\<lambda>ipc.
         seq (\<lambda>w. pure (append_ipconfig (heap w m) ipc) w) (\<lambda>nic1.
         seq (effect (\<lambda>w. w\<lparr>heap := (heap w)(m := nic1)\<rparr>)) (\<lambda>u.
           if int index = int n - 1
           then
             seq (\<lambda>w. pure (getitem (heap w m) ''id'') w) (\<lambda>rid.
             seq (\<lambda>w. safe_arm_put az rid (heap w m) (''my '' @ cni @ '' VIP addition'') w)
               (\<lambda>r. raise StopIteration))
           else add_vips az conf cni m subnet_id app_security_groups n (Suc index) rest))))
       else add_vips az conf cni m subnet_id app_security_groups n (Suc index) rest)"

text \<open>Line 696, \<^verbatim>\<open>[vip[NAME] for vip in vips]\<close>, and lines 705 and 710,
  \<^verbatim>\<open>[ip['name'] for ip in nic['properties']['ipConfigurations']]\<close>.\<close>

definition vip_names_of :: "json \<Rightarrow> exn + json list" where
  "vip_names_of vips = bind (py_iter vips) (\<lambda>vs. getitem_all vs NAME)"

definition ip_names :: "json \<Rightarrow> exn + json list" where
  "ip_names nic =
     bind (getitem nic ''properties'') (\<lambda>props.
     bind (getitem props ''ipConfigurations'') (\<lambda>cfgs.
     bind (py_iter cfgs) (\<lambda>ips. getitem_all ips ''name'')))"

text \<open>
  Lines 713 to 721: the peer cleanup pass for the interface \<open>cni\<close>; \<open>p\<close> is the reference
  \<^verbatim>\<open>peer_nic\<close>. The object in the store loses the configurations that were popped.
\<close>

definition peer_cleanup :: "'c azure \<Rightarrow> string \<Rightarrow> ref \<Rightarrow> json list \<Rightarrow> (unit, 'c) prog" where
  "peer_cleanup az cni p vip_names =
     seq (\<lambda>w. pure (remove_attached_vips vip_names (heap w p) cni) w) (\<lambda>removed.
     seq (effect (\<lambda>w. w\<lparr>heap := (heap w)(p := fst removed)\<rparr>)) (\<lambda>u.
       if fst (snd removed)
       then
         seq (effect (update_cluster_status_file IN_PROGRESS)) (\<lambda>u.
         seq (\<lambda>w. pure (getitem (heap w p) ''id'') w) (\<lambda>rid.
         seq (\<lambda>w. safe_arm_put az rid (heap w p) (''peer '' @ cni @ '' VIP removal'') w)
           (\<lambda>r. raise StopIteration)))
       else ret ()))"

text \<open>Lines 722 to 784: the self addition pass.\<close>

definition self_addition :: "'c azure \<Rightarrow> json \<Rightarrow> ref list \<Rightarrow> string \<Rightarrow> json \<Rightarrow> (unit, 'c) prog" where
  "self_addition az conf my_nics cni vips =
     seq (\<lambda>w. pure (get_nic_by_suffix (heap w) my_nics cni) w) (\<lambda>m.
     seq (\<lambda>w. is_resource_ready az (heap w m) w) (\<lambda>ready.
       if \<not> ready then raise StopIteration
       else
         seq (\<lambda>w. pure (bind (getitem (heap w m) ''properties'') (\<lambda>props.
                        bind (getitem props ''ipConfigurations'') (\<lambda>cfgs.
                        bind (getitem0 cfgs) (\<lambda>c0.
                        bind (getitem c0 ''properties'') (\<lambda>p0.
                        bind (getitem p0 ''subnet'') (\<lambda>sn. getitem sn ''id'')))))) w)
           (\<lambda>subnet_id.
         seq (\<lambda>w. pure (bind (getitem (heap w m) ''properties'') (\<lambda>props.
                        bind (getitem props ''ipConfigurations'') (\<lambda>cfgs.
                        bind (getitem0 cfgs) (\<lambda>c0.
                        bind (getitem c0 ''properties'') (\<lambda>p0.
                          get_default p0 ''applicationSecurityGroups'' JNull))))) w)
           (\<lambda>app_security_groups.
         seq (pure (py_iter vips)) (\<lambda>vs.
           add_vips az conf cni m subnet_id app_security_groups (length vs) 0 vs)))))"

text \<open>
  Lines 693 to 784: the body of the \<^verbatim>\<open>try\<close> for one interface. \<open>my_nics\<close> and
  \<open>peer_nics\<close> are the lists of references that \<^verbatim>\<open>get_vm_nics\<close> returned.
\<close>

definition cluster_interface :: "'c azure \<Rightarrow> json \<Rightarrow> ref list \<Rightarrow> ref list \<Rightarrow> string \<Rightarrow> json
    \<Rightarrow> (unit, 'c) prog" where
  "cluster_interface az conf my_nics peer_nics cni vips =
     seq (pure (vip_names_of vips)) (\<lambda>vip_names.
     seq (\<lambda>w. pure (get_nic_by_suffix (heap w) peer_nics cni) w) (\<lambda>p.
     seq (\<lambda>w. is_resource_ready az (heap w p) w) (\<lambda>ready.
       if \<not> ready then raise StopIteration
       else
         seq (\<lambda>w. pure (ip_names (heap w p)) w) (\<lambda>peer_ip_names.
         seq (\<lambda>w. pure (get_nic_by_suffix (heap w) my_nics cni) w) (\<lambda>m.
         seq (\<lambda>w. pure (if truthy (heap w m) then ip_names (heap w m) else Inr []) w)
           (\<lambda>my_ip_names.
         seq (peer_cleanup az cni p vip_names) (\<lambda>u.
           self_addition az conf my_nics cni vips)))))))"

text \<open>
  Lines 691 to 791: the loop over the configured interfaces, with the handler of
  \<^verbatim>\<open>StopIteration\<close> and the count of the interfaces that needed nothing.
\<close>

fun interfaces_loop :: "'c azure \<Rightarrow> json \<Rightarrow> ref list \<Rightarrow> ref list \<Rightarrow> (string \<times> json) list
    \<Rightarrow> nat \<Rightarrow> (nat, 'c) prog" where
  "interfaces_loop az conf my_nics peer_nics [] done w = (Inr done, w)"
| "interfaces_loop az conf my_nics peer_nics ((cni, vips) # rest) done w =
     (case cluster_interface az conf my_nics peer_nics cni vips w of
        (Inr u, w1) \<Rightarrow> interfaces_loop az conf my_nics peer_nics rest (Suc done) w1
      | (Inl e, w1) \<Rightarrow>
          if e = StopIteration
          then (if get_default conf ''interfaceSwitchMode'' JNull = Inr (JStr ''serial'')
                then (Inr done, w1)
                else interfaces_loop az conf my_nics peer_nics rest done w1)
          else (Inl e, w1))"

text \<open>\<^verbatim>\<open>set_cluster_ips\<close> from line 691 on, given the lists of references.\<close>

definition set_cluster_ips :: "'c azure \<Rightarrow> json \<Rightarrow> ref list \<Rightarrow> ref list \<Rightarrow> (bool, 'c) prog" where
  "set_cluster_ips az conf my_nics peer_nics =
     seq (pure (getitem conf ''clusterNetworkInterfaces'')) (\<lambda>cnis.
       case cnis of
         JObj items \<Rightarrow>
           seq (interfaces_loop az conf my_nics peer_nics items 0)
             (\<lambda>done. ret (done \<noteq> length items))
       | _ \<Rightarrow> raise AttributeError)"

section \<open>Reading the configuration: the peer name\<close>

fun py_endswith :: "json \<Rightarrow> string \<Rightarrow> exn + bool" where
  "py_endswith (JStr s) sfx = Inr (suffix sfx s)"
| "py_endswith _ sfx = Inl AttributeError"

text \<open>\<^verbatim>\<open>s[:-1] + t\<close> for strings; the slice of the empty string is empty.\<close>

fun py_replace_last :: "json \<Rightarrow> string \<Rightarrow> exn + json" where
  "py_replace_last (JStr s) t = Inr (JStr (take (length s - 1) s @ t))"
| "py_replace_last _ t = Inl TypeError"

text \<open>
  Lines 282 to 287 of \<^verbatim>\<open>reconf\<close>: \<open>c\<close> is the configuration just loaded, \<open>gethostname\<close>
  the result of \<^verbatim>\<open>socket.gethostname()\<close>, \<open>conf\<close> the global dictionary.
\<close>

definition reconf_names :: "json \<Rightarrow> string \<Rightarrow> json \<Rightarrow> exn + json" where
  "reconf_names c gethostname conf =
     bind (get_default c ''hostname'' (JStr gethostname)) (\<lambda>h.
       let conf1 = setitem conf ''hostname'' h in
       bind (py_in ''peername'' c) (\<lambda>present.
         if \<not> present
         then
           bind (getitem conf1 ''hostname'') (\<lambda>hostname.
           bind (py_endswith hostname ''1'') (\<lambda>ends.
             if ends
             then bind (py_replace_last hostname ''2'') (\<lambda>p. Inr (setitem conf1 ''peername'' p))
             else bind (py_replace_last hostname ''1'') (\<lambda>p. Inr (setitem conf1 ''peername'' p))))
         else Inr conf1))"

section \<open>The specification's resolver of API versions\<close>

text \<open>
  The specification selects the version by longest-prefix match on the ordered mapping
  of the active profile, with the generic resources version when no prefix matches.
  The keys of the mapping (\<^verbatim>\<open>network/\<close>, \<^verbatim>\<open>compute/\<close>, \<^verbatim>\<open>resources/\<close>) are prefixes of the
  provider-relative path of a resource: the text after \<^verbatim>\<open>/providers/microsoft.\<close>, in lower
  case.
\<close>

definition longest_prefix_version :: "(string \<times> string) list \<Rightarrow> string \<Rightarrow> string" where
  "longest_prefix_version mapping subject =
     (case filter (\<lambda>kv. prefix (fst kv) subject) mapping of
        [] \<Rightarrow> ''2021-04-01''
      | m # ms \<Rightarrow>
          snd (fold (\<lambda>kv best. if length (fst best) < length (fst kv) then kv else best) ms m))"

fun after_marker :: "string \<Rightarrow> string \<Rightarrow> string option" where
  "after_marker m [] = (if m = [] then Some [] else None)"
| "after_marker m (c # cs) =
     (if prefix m (c # cs) then Some (drop (length m) (c # cs)) else after_marker m cs)"

definition provider_path :: "string \<Rightarrow> string" where
  "provider_path resource_id =
     (case after_marker ''/providers/microsoft.'' (lower resource_id) of
        Some rest \<Rightarrow> rest
      | None \<Rightarrow> lower resource_id)"

definition spec_api_version :: "string \<Rightarrow> string \<Rightarrow> string" where
  "spec_api_version templateName resource_id =
     ''?api-version=''
       @ longest_prefix_version (set_api_versions templateName) (provider_path resource_id)"

text \<open>The identifier of the local virtual machine as the daemon builds it (lines 479
  and 614, the provider in lower case), and as Azure spells it.\<close>

definition vm_id_example :: string where
  "vm_id_example =
     ''/subscriptions/s1/resourcegroups/rg1/providers/microsoft.compute/virtualmachines/fw1''"

definition vm_id_azure_example :: string where
  "vm_id_azure_example =
     ''/subscriptions/s1/resourceGroups/rg1/providers/Microsoft.Compute/virtualMachines/fw1''"

section \<open>Observations and concrete inputs\<close>

text \<open>What a run from world \<open>w\<close> to world \<open>w1\<close> added: the requests with their answers, the
  log records, and the calls of \<^verbatim>\<open>safe_arm_put\<close>.\<close>

definition issued :: "'c world \<Rightarrow> 'c world \<Rightarrow> (request \<times> (exn + response)) list" where
  "issued w w1 = drop (length (exchanges w)) (exchanges w1)"

definition written :: "'c world \<Rightarrow> 'c world \<Rightarrow> (level \<times> string) list" where
  "written w w1 = drop (length (logged w)) (logged w1)"

definition new_puts :: "'c world \<Rightarrow> 'c world \<Rightarrow> (json \<times> json \<times> string) list" where
  "new_puts w w1 = drop (length (puts w)) (puts w1)"

definition put_request :: "string \<Rightarrow> payload \<Rightarrow> request" where
  "put_request u b = \<lparr>meth = ''PUT'', url = u, body = Some b\<rparr>"

text \<open>How the answer to a PUT decides the result: inside the \<^verbatim>\<open>try\<close>, after the handler,
  and whether the first attempt goes on to the standard PUT.\<close>

definition try_result :: "exn + response \<Rightarrow> exn + json" where
  "try_result ans =
     (case ans of Inl e \<Rightarrow> Inl e
      | Inr result \<Rightarrow> Inr (if str_is_200 (response_code result) then snd result else JNull))"

definition handler_result :: "json \<Rightarrow> exn + json \<Rightarrow> exn + json" where
  "handler_result body_obj r =
     (case r of Inl e \<Rightarrow> if is_invalid_extended_location e then Inr body_obj else Inl e
      | Inr v \<Rightarrow> Inr v)"

definition final_result :: "json \<Rightarrow> exn + response \<Rightarrow> exn + json" where
  "final_result body_obj ans = handler_result body_obj (try_result ans)"

definition falls_through :: "exn + response \<Rightarrow> bool" where
  "falls_through ans =
     (case ans of Inl e \<Rightarrow> is_invalid_extended_location e
      | Inr result \<Rightarrow> \<not> str_is_200 (response_code result))"

definition world0 :: "unit world" where
  "world0 = \<lparr>cloud = (), exchanges = [], logged = [], status_file = [],
             heap = (\<lambda>r. JNull), puts = []\<rparr>"

definition ok_headers :: json where
  "ok_headers = JObj [(''code'', JNum 200)]"

text \<open>A network interface in an edge zone, known by the location of its virtual network,
  and the object the cloud returns once it has accepted a write.\<close>

definition vnet_zone_nic :: json where
  "vnet_zone_nic =
     JObj [(''id'', JStr ''/nic1''),
           (''properties'',
              JObj [(''vnetExtendedLocation'',
                       JObj [(''name'', JStr ''ez-1''), (''type'', JStr ''EdgeZone'')])])]"

definition accepted_nic :: json where
  "accepted_nic =
     JObj [(''id'', JStr ''/nic1''),
           (''properties'', JObj [(''provisioningState'', JStr ''Updating'')])]"



definition failing_cloud :: "unit azure" where
  "failing_cloud c r = (Inr (JObj [(''code'', JNum 500)], JStr ''InternalServerError''), c)"

definition forbidden_cloud :: "unit azure" where
  "forbidden_cloud c r = (Inl (RequestException 403 ''AuthorizationFailed''), c)"


section \<open>The event loop\<close>

text \<open>
  \<^verbatim>\<open>sock.recv\<close> returns \<^verbatim>\<open>bytes\<close>; the event tags in the source are \<^verbatim>\<open>str\<close> literals.
  The set \<^verbatim>\<open>events\<close> holds both, and Python never finds a \<^verbatim>\<open>bytes\<close> object equal to a
  \<^verbatim>\<open>str\<close>.
\<close>

datatype pyval = PyBytes string | PyStr string

text \<open>The values of \<^verbatim>\<open>errno.EAGAIN\<close> and \<^verbatim>\<open>errno.EWOULDBLOCK\<close> on Linux.\<close>

definition EAGAIN :: int where "EAGAIN = 11"
definition EWOULDBLOCK :: int where "EWOULDBLOCK = 11"

text \<open>Whether \<^verbatim>\<open>dgram.decode('utf-8')\<close> succeeds: well-formed UTF-8, no overlong forms, no
  surrogates, nothing above U+10FFFF.\<close>

definition cont :: "nat \<Rightarrow> bool" where
  "cont b = (128 \<le> b \<and> b \<le> 191)"

fun utf8_valid :: "nat list \<Rightarrow> bool" where
  "utf8_valid [] = True"
| "utf8_valid (b # bs) =
     (if b < 128 then utf8_valid bs
      else if 194 \<le> b \<and> b \<le> 223
        then (case bs of b1 # r \<Rightarrow> cont b1 \<and> utf8_valid r | _ \<Rightarrow> False)
      else if b = 224
        then (case bs of b1 # b2 # r \<Rightarrow> 160 \<le> b1 \<and> b1 \<le> 191 \<and> cont b2 \<and> utf8_valid r
              | _ \<Rightarrow> False)
      else if (225 \<le> b \<and> b \<le> 236) \<or> b = 238 \<or> b = 239
        then (case bs of b1 # b2 # r \<Rightarrow> cont b1 \<and> cont b2 \<and> utf8_valid r | _ \<Rightarrow> False)
      else if b = 237
        then (case bs of b1 # b2 # r \<Rightarrow> 128 \<le> b1 \<and> b1 \<le> 159 \<and> cont b2 \<and> utf8_valid r
              | _ \<Rightarrow> False)
      else if b = 240
        then (case bs of b1 # b2 # b3 # r \<Rightarrow>
                144 \<le> b1 \<and> b1 \<le> 191 \<and> cont b2 \<and> cont b3 \<and> utf8_valid r
              | _ \<Rightarrow> False)
      else if 241 \<le> b \<and> b \<le> 243
        then (case bs of b1 # b2 # b3 # r \<Rightarrow> cont b1 \<and> cont b2 \<and> cont b3 \<and> utf8_valid r
              | _ \<Rightarrow> False)
      else if b = 244
        then (case bs of b1 # b2 # b3 # r \<Rightarrow>
                128 \<le> b1 \<and> b1 \<le> 143 \<and> cont b2 \<and> cont b3 \<and> utf8_valid r
              | _ \<Rightarrow> False)
      else False)"

text \<open>
  Lines 1021 to 1031: one tick drains the socket. Its input is the list of the datagrams
  that \<^verbatim>\<open>recv\<close> returns, then the \<^verbatim>\<open>errno\<close> of the \<^verbatim>\<open>socket.error\<close> that ends the drain.
  The argument of the debug record is evaluated, so a datagram that is not UTF-8 raises.
\<close>

fun drain :: "string list \<Rightarrow> int \<Rightarrow> pyval list \<Rightarrow> exn + pyval list" where
  "drain [] errno events =
     (if errno = EAGAIN \<or> errno = EWOULDBLOCK then Inr (events @ [PyStr ''CHANGED''])
      else Inl (SocketError errno))"
| "drain (dgram # rest) errno events =
     (if utf8_valid (map of_char dgram) then drain rest errno (events @ [PyBytes dgram])
      else Inl UnicodeDecodeError)"

text \<open>
  The handlers \<^verbatim>\<open>reconf\<close> and \<^verbatim>\<open>poll\<close> are parameters over the state \<open>'s\<close> of the daemon.
  Lines 1032 to 1034 call them in the order of the list.
\<close>

type_synonym 's handler = "'s \<Rightarrow> (exn + unit) \<times> 's"

fun run_handlers :: "(string \<times> 's handler) list \<Rightarrow> pyval list \<Rightarrow> 's \<Rightarrow> (exn + unit) \<times> 's" where
  "run_handlers [] events s = (Inr (), s)"
| "run_handlers (h # hs) events s =
     (if PyStr (fst h) \<in> set events
      then (case snd h s of
              (Inl e, s1) \<Rightarrow> (Inl e, s1)
            | (Inr u, s1) \<Rightarrow> run_handlers hs events s1)
      else run_handlers hs events s)"

text \<open>
  \<^verbatim>\<open>Server.run\<close> on a list of ticks. The loop is left by \<^verbatim>\<open>break\<close> (\<open>Left\<close>) or by an
  exception (\<open>Crashed\<close>); when the ticks are used up it is still running (\<open>Running\<close>).
\<close>

datatype 's outcome = Left 's | Crashed exn 's | Running 's

fun run :: "'s handler \<Rightarrow> 's handler \<Rightarrow> (string list \<times> int) list \<Rightarrow> 's \<Rightarrow> 's outcome" where
  "run reconf poll [] s = Running s"
| "run reconf poll ((dgrams, errno) # ticks) s =
     (case drain dgrams errno [] of
        Inl e \<Rightarrow> Crashed e s
      | Inr events \<Rightarrow>
          (case run_handlers [(''RECONF'', reconf), (''CHANGED'', poll)] events s of
             (Inl e, s1) \<Rightarrow> Crashed e s1
           | (Inr u, s1) \<Rightarrow>
               if PyStr ''STOP'' \<in> set events then Left s1 else run reconf poll ticks s1))"

text \<open>Handlers that only record that they ran.\<close>

definition note_reconf :: "string list handler" where
  "note_reconf s = (Inr (), s @ [''reconf''])"

definition note_poll :: "string list handler" where
  "note_poll s = (Inr (), s @ [''poll''])"

section \<open>The route-table reconciler\<close>

text \<open>\<^verbatim>\<open>s.split(c)\<close>: a string with \<open>k\<close> separators has \<open>k + 1\<close> parts.\<close>

fun split_on :: "char \<Rightarrow> string \<Rightarrow> string list" where
  "split_on c [] = [[]]"
| "split_on c (x # xs) =
     (if x = c then [] # split_on c xs
      else (case split_on c xs of p # ps \<Rightarrow> (x # p) # ps | [] \<Rightarrow> [[x]]))"

fun py_split :: "json \<Rightarrow> exn + string list" where
  "py_split (JStr s) = Inr (split_on CHR ''/'' s)"
| "py_split _ = Inl AttributeError"

text \<open>\<^verbatim>\<open>xs.index(x)\<close> for an element of the list, and \<^verbatim>\<open>xs[i]\<close>.\<close>

fun index_of :: "'a list \<Rightarrow> 'a \<Rightarrow> nat" where
  "index_of [] x = 0"
| "index_of (y # ys) x = (if y = x then 0 else Suc (index_of ys x))"

definition py_nth :: "json list \<Rightarrow> nat \<Rightarrow> exn + json" where
  "py_nth xs i = (if i < length xs then Inr (xs ! i) else Inl IndexError)"

text \<open>
  Lines 850 to 866: the body of the loop over the routes. \<open>me\<close> and \<open>peer\<close> are the lists
  \<^verbatim>\<open>conf['addresses']['me']\<close> and \<^verbatim>\<open>conf['addresses']['peer']\<close> that \<^verbatim>\<open>reconf\<close> builds. The
  result is the route, rewritten or not, and whether it was rewritten.
\<close>

definition rewrite_route :: "json list \<Rightarrow> json list \<Rightarrow> json \<Rightarrow> exn + (json \<times> bool)" where
  "rewrite_route me peer route =
     bind (getitem route ''properties'') (\<lambda>props.
     bind (getitem props ''nextHopType'') (\<lambda>t.
       if t \<noteq> JStr ''VirtualAppliance'' then Inr (route, False)
       else
         bind (get_default props ''nextHopIpAddress'' JNull) (\<lambda>next_hop.
           if next_hop \<notin> set peer then Inr (route, False)
           else
             bind (get_default props ''addressPrefix'' (JStr [])) (\<lambda>address_prefix.
             bind (py_split address_prefix) (\<lambda>cidr.
               if length cidr = 2 \<and> JStr (cidr ! 0) \<in> set peer \<and> cidr ! 1 = ''32''
               then Inr (route, False)
               else
                 bind (py_nth me (index_of peer next_hop)) (\<lambda>my_addr.
                   Inr (setitem route ''properties''
                          (setitem props ''nextHopIpAddress'' my_addr), True)))))))"

fun rewrite_routes :: "json list \<Rightarrow> json list \<Rightarrow> json list \<Rightarrow> exn + (json list \<times> bool)" where
  "rewrite_routes me peer [] = Inr ([], False)"
| "rewrite_routes me peer (route # routes) =
     bind (rewrite_route me peer route) (\<lambda>r.
     bind (rewrite_routes me peer routes) (\<lambda>rs.
       Inr (fst r # fst rs, snd r \<or> snd rs)))"

text \<open>
  Lines 848 to 874: the routes of a table that is ready are rewritten in place, and the
  table is written when \<^verbatim>\<open>dirty\<close>.
\<close>

definition rewrite_table :: "json list \<Rightarrow> json list \<Rightarrow> json \<Rightarrow> exn + (json \<times> bool)" where
  "rewrite_table me peer route_table =
     bind (getitem route_table ''properties'') (\<lambda>props.
     bind (get_default props ''routes'' (JArr [])) (\<lambda>rs.
     bind (py_iter rs) (\<lambda>routes.
     bind (rewrite_routes me peer routes) (\<lambda>r.
       Inr (if snd r
            then setitem route_table ''properties'' (setitem props ''routes'' (JArr (fst r)))
            else route_table, snd r)))))"

definition update_route_table :: "'c azure \<Rightarrow> json list \<Rightarrow> json list \<Rightarrow> json \<Rightarrow> json
    \<Rightarrow> (unit, 'c) prog" where
  "update_route_table az me peer rid route_table =
     seq (pure (rewrite_table me peer route_table)) (\<lambda>r.
       if snd r
       then seq (safe_arm_put az rid (fst r) ''route table update'') (\<lambda>t. ret ())
       else ret ())"

text \<open>Lines 841 to 874: the body of the \<^verbatim>\<open>try\<close> for one table; the result is whether the
  table sets \<^verbatim>\<open>todo\<close>.\<close>

definition route_table_pass :: "'c azure \<Rightarrow> json list \<Rightarrow> json list \<Rightarrow> json \<Rightarrow> (bool, 'c) prog" where
  "route_table_pass az me peer rid =
     seq (pure (url_of rid)) (\<lambda>u.
     seq (arm az ''GET'' u None) (\<lambda>result.
     seq (is_resource_ready az (snd result)) (\<lambda>ready.
       if \<not> ready then ret True
       else seq (update_route_table az me peer rid (snd result)) (\<lambda>u. ret False))))"

text \<open>
  Lines 836 to 880, for the table identifiers that \<^verbatim>\<open>get_route_table_ids\<close> returned, in
  the order the loop visits them.
\<close>

fun set_routing_tables :: "'c azure \<Rightarrow> json list \<Rightarrow> json list \<Rightarrow> json list \<Rightarrow> bool
    \<Rightarrow> (bool, 'c) prog" where
  "set_routing_tables az me peer [] todo w = (Inr todo, w)"
| "set_routing_tables az me peer (rid # rids) todo w =
     (case route_table_pass az me peer rid w of
        (Inr t, w1) \<Rightarrow> set_routing_tables az me peer rids (todo \<or> t) w1
      | (Inl e, w1) \<Rightarrow>
          (case e of
             RequestException code text \<Rightarrow>
               if code = 401 \<or> code = 403
               then set_routing_tables az me peer rids todo w1
               else (Inl e, w1)
           | _ \<Rightarrow> (Inl e, w1)))"

text \<open>
  The reading of the specification: a route is rewritten when its next hop is a virtual
  appliance at a peer address, unless its prefix is a peer address followed by
  \<^verbatim>\<open>/32\<close>.
\<close>

definition route_field :: "json \<Rightarrow> string \<Rightarrow> json" where
  "route_field route k =
     (case bind (getitem route ''properties'') (\<lambda>props. get_default props k JNull) of
        Inr v \<Rightarrow> v
      | Inl e \<Rightarrow> JNull)"

definition route_prefix :: "json \<Rightarrow> string" where
  "route_prefix route = (case route_field route ''addressPrefix'' of JStr s \<Rightarrow> s | _ \<Rightarrow> [])"

definition is_peer_host_prefix :: "json list \<Rightarrow> string \<Rightarrow> bool" where
  "is_peer_host_prefix peer s =
     list_ex (\<lambda>a. case a of JStr p \<Rightarrow> CHR ''/'' \<notin> set p \<and> s = p @ ''/32'' | _ \<Rightarrow> False) peer"

definition should_rewrite :: "json list \<Rightarrow> json \<Rightarrow> bool" where
  "should_rewrite peer route =
     (route_field route ''nextHopType'' = JStr ''VirtualAppliance''
      \<and> route_field route ''nextHopIpAddress'' \<in> set peer
      \<and> \<not> is_peer_host_prefix peer (route_prefix route))"

definition rewritten :: "json list \<Rightarrow> json list \<Rightarrow> json \<Rightarrow> json" where
  "rewritten me peer route =
     (case getitem route ''properties'' of
        Inr props \<Rightarrow>
          setitem route ''properties''
            (setitem props ''nextHopIpAddress''
               (me ! index_of peer (route_field route ''nextHopIpAddress'')))
      | Inl e \<Rightarrow> route)"

text \<open>A route as the cloud returns it: its properties are a dictionary with a
  \<^verbatim>\<open>nextHopType\<close>, and its prefix, when it has one, is a string.\<close>

definition route_ok :: "json \<Rightarrow> bool" where
  "route_ok route =
     (case getitem route ''properties'' of
        Inr (JObj ps) \<Rightarrow>
          map_of ps ''nextHopType'' \<noteq> None
          \<and> (case map_of ps ''addressPrefix'' of
                None \<Rightarrow> True | Some (JStr s) \<Rightarrow> True | Some v \<Rightarrow> False)
      | _ \<Rightarrow> False)"

text \<open>Scenario 5 of the specification with a second interface: the route to the peer's
  second address goes through the peer's first address.\<close>

definition me2 :: "json list" where
  "me2 = [JStr ''10.0.1.4'', JStr ''10.0.2.4'']"

definition peer2 :: "json list" where
  "peer2 = [JStr ''10.0.1.5'', JStr ''10.0.2.5'']"

definition mk_route :: "string \<Rightarrow> string \<Rightarrow> string \<Rightarrow> json" where
  "mk_route name address_prefix next_hop =
     JObj [(''name'', JStr name),
           (''properties'',
              JObj [(''addressPrefix'', JStr address_prefix),
                    (''nextHopType'', JStr ''VirtualAppliance''),
                    (''nextHopIpAddress'', JStr next_hop)])]"

definition cross_route :: json where
  "cross_route = mk_route ''to-peer-eth1'' ''10.0.2.5/32'' ''10.0.1.5''"

definition route_table2 :: json where
  "route_table2 =
     JObj [(''id'', JStr ''/rt1''),
           (''properties'',
              JObj [(''provisioningState'', JStr ''Succeeded''),
                    (''routes'',
                       JArr [mk_route ''default'' ''0.0.0.0/0'' ''10.0.1.5'',
                             mk_route ''peer-eth0'' ''10.0.1.5/32'' ''10.0.1.5'',
                             cross_route])])]"

definition accepting_cloud :: "unit azure" where
  "accepting_cloud c r =
     (case body r of
        Some (Dumps b) \<Rightarrow> (Inr (ok_headers, b), c)
      | _ \<Rightarrow> (Inr (ok_headers, JNull), c))"

section \<open>Shapes and inputs for the VIP reconciler\<close>

text \<open>
  An ipConfiguration bears a VIP name when both names are strings that agree up to case.
  \<open>nic_configs\<close> is the list \<^verbatim>\<open>nic['properties']['ipConfigurations']\<close> of a well-formed
  interface; a configured VIP is attached to an interface when one of its configurations
  bears one of the configured names.
\<close>

definition name_matches :: "json \<Rightarrow> json \<Rightarrow> bool" where
  "name_matches ipc name =
     (case (bind (getitem ipc NAME) py_lower, py_lower name) of
        (Inr a, Inr b) \<Rightarrow> a = b
      | _ \<Rightarrow> False)"

definition nic_configs :: "json \<Rightarrow> json list" where
  "nic_configs nic =
     (case bind (getitem nic ''properties'') (\<lambda>props. getitem props ''ipConfigurations'') of
        Inr (JArr xs) \<Rightarrow> xs
      | _ \<Rightarrow> [])"

definition vip_attached :: "json list \<Rightarrow> json \<Rightarrow> bool" where
  "vip_attached vip_names nic =
     list_ex (\<lambda>name. list_ex (\<lambda>ipc. name_matches ipc name) (nic_configs nic)) vip_names"

text \<open>Interfaces as the cloud returns them: an identifier, and a list of configurations
  that each have a string for a name.\<close>

fun is_str :: "json \<Rightarrow> bool" where
  "is_str (JStr s) = True"
| "is_str _ = False"

definition ipc_ok :: "json \<Rightarrow> bool" where
  "ipc_ok ipc = (case getitem ipc NAME of Inr v \<Rightarrow> is_str v | Inl e \<Rightarrow> False)"

definition nic_ok :: "json \<Rightarrow> bool" where
  "nic_ok nic =
     ((case getitem nic ''id'' of Inr v \<Rightarrow> True | Inl e \<Rightarrow> False)
      \<and> (case bind (getitem nic ''properties'') (\<lambda>props. getitem props ''ipConfigurations'') of
            Inr (JArr xs) \<Rightarrow> list_all ipc_ok xs
          | _ \<Rightarrow> False))"


text \<open>A configuration and an interface, for the examples.\<close>

definition mk_ipc :: "string \<Rightarrow> string \<Rightarrow> json" where
  "mk_ipc name addr =
     JObj [(''name'', JStr name),
           (''properties'',
              JObj [(''privateIPAddress'', JStr addr),
                    (''subnet'', JObj [(''id'', JStr ''/vnet1/subnets/frontend'')])])]"

definition mk_nic :: "string \<Rightarrow> string \<Rightarrow> json list \<Rightarrow> json" where
  "mk_nic name state ipcs =
     JObj [(''id'', JStr (''/nics/'' @ name)),
           (''name'', JStr name),
           (''properties'',
              JObj [(''provisioningState'', JStr state),
                    (''ipConfigurations'', JArr ipcs)])]"

definition mk_vip :: "string \<Rightarrow> string \<Rightarrow> json" where
  "mk_vip name addr =
     JObj [(''name'', JStr name), (''privateIpAddr'', JStr addr), (''publicIpObj'', JStr [])]"

text \<open>Worlds whose store holds my interface at reference 0 and the peer's at 1.\<close>

definition world_of :: "json \<Rightarrow> json \<Rightarrow> unit world" where
  "world_of my_nic peer_nic =
     world0\<lparr>heap := (\<lambda>r. if r = 0 then my_nic else if r = 1 then peer_nic else JNull)\<rparr>"

definition conf1 :: json where
  "conf1 = JObj [(''baseId'', JStr ''/subscriptions/s1/resourcegroups/rg1/providers/'')]"

text \<open>
  An interface \<^verbatim>\<open>eth0\<close> with two configured VIPs; my interface holds the second one
  only, the peer holds none, and both are ready.
\<close>

definition two_vips :: json where
  "two_vips = JArr [mk_vip ''cluster-vip'' ''10.0.0.10'', mk_vip ''cluster-vip-2'' ''10.0.0.11'']"

definition my_nic_second_only :: json where
  "my_nic_second_only =
     mk_nic ''fw1-eth0'' ''Succeeded''
       [mk_ipc ''ipconfig1'' ''10.0.0.4'', mk_ipc ''cluster-vip-2'' ''10.0.0.11'']"

definition peer_nic_clean :: json where
  "peer_nic_clean = mk_nic ''fw2-eth0'' ''Succeeded'' [mk_ipc ''ipconfig1'' ''10.0.0.5'']"

definition conf_two_vips :: json where
  "conf_two_vips =
     JObj [(''baseId'', JStr ''/subscriptions/s1/resourcegroups/rg1/providers/''),
           (''clusterNetworkInterfaces'', JObj [(''eth0'', two_vips)])]"

text \<open>A peer interface that holds the VIP and is being updated; a peer interface with
  two configurations whose names differ in case only, and one that holds a second VIP
  as well; a peer interface that holds the VIP and is ready; my interface without the
  VIP.\<close>

definition one_vip :: json where
  "one_vip = JArr [mk_vip ''cluster-vip'' ''10.0.0.10'']"

definition peer_nic_updating :: json where
  "peer_nic_updating =
     mk_nic ''fw2-eth0'' ''Updating''
       [mk_ipc ''ipconfig1'' ''10.0.0.5'', mk_ipc ''cluster-vip'' ''10.0.0.10'']"



definition peer_nic_holding :: json where
  "peer_nic_holding =
     mk_nic ''fw2-eth0'' ''Succeeded''
       [mk_ipc ''ipconfig1'' ''10.0.0.5'', mk_ipc ''Cluster-VIP'' ''10.0.0.10'']"

definition my_nic_plain :: json where
  "my_nic_plain = mk_nic ''fw1-eth0'' ''Succeeded'' [mk_ipc ''ipconfig1'' ''10.0.0.4'']"

text \<open>
  The configuration list after the peer cleanup pass: for each configured name in turn,
  the first configuration that bears it is taken out.
\<close>

definition match_index :: "json \<Rightarrow> json list \<Rightarrow> nat" where
  "match_index name ipcs = length (takeWhile (\<lambda>ipc. \<not> name_matches ipc name) ipcs)"

definition remove_first :: "json \<Rightarrow> json list \<Rightarrow> json list" where
  "remove_first name ipcs =
     take (match_index name ipcs) ipcs @ drop (Suc (match_index name ipcs)) ipcs"

definition with_configs :: "json \<Rightarrow> json list \<Rightarrow> json" where
  "with_configs nic ipcs =
     (case getitem nic ''properties'' of
        Inr props \<Rightarrow>
          setitem nic ''properties'' (setitem props ''ipConfigurations'' (JArr ipcs))
      | Inl e \<Rightarrow> nic)"

section \<open>The public-address reconciler\<close>

text \<open>\<^verbatim>\<open>a + b\<close> for strings, and \<^verbatim>\<open>set(xs)\<close>: its elements must be hashable. (Python does
  not fix the order in which a set is visited; the model keeps the order of the list.)\<close>

fun py_concat :: "json \<Rightarrow> json \<Rightarrow> exn + json" where
  "py_concat (JStr a) (JStr b) = Inr (JStr (a @ b))"
| "py_concat _ _ = Inl TypeError"

fun hashable :: "json \<Rightarrow> bool" where
  "hashable (JArr xs) = False"
| "hashable (JObj kvs) = False"
| "hashable _ = True"

definition py_set :: "json list \<Rightarrow> exn + json list" where
  "py_set xs = (if list_all hashable xs then Inr (remdups xs) else Inl TypeError)"

text \<open>\<^verbatim>\<open>set(id.lower() for id in ids)\<close>.\<close>

fun lower_all :: "json list \<Rightarrow> exn + string list" where
  "lower_all [] = Inr []"
| "lower_all (x # xs) = bind (py_lower x) (\<lambda>y. bind (lower_all xs) (\<lambda>ys. Inr (y # ys)))"

text \<open>\<^verbatim>\<open>azure.arm('GET', url)[1]\<close>.\<close>

definition arm_get :: "'c azure \<Rightarrow> string \<Rightarrow> (json, 'c) prog" where
  "arm_get az u = seq (arm az ''GET'' u None) (\<lambda>result. ret (snd result))"

text \<open>
  Lines 461 to 476: the identifiers of the inbound NAT rules of the load balancer whose
  name does not start with \<^verbatim>\<open>checkpoint-\<close>; none when no load balancer is configured or
  the cloud answers 404.
\<close>

fun non_checkpoint_ids :: "json list \<Rightarrow> exn + json list" where
  "non_checkpoint_ids [] = Inr []"
| "non_checkpoint_ids (r # rs) =
     bind (getitem r ''name'') (\<lambda>n.
       case n of
         JStr name \<Rightarrow>
           if \<not> prefix ''checkpoint-'' name
           then bind (getitem r ''id'') (\<lambda>i.
                bind (non_checkpoint_ids rs) (\<lambda>ids. Inr (i # ids)))
           else non_checkpoint_ids rs
       | _ \<Rightarrow> Inl AttributeError)"

definition read_non_cp_nat_rules :: "'c azure \<Rightarrow> json \<Rightarrow> (json list, 'c) prog" where
  "read_non_cp_nat_rules az conf =
     seq (pure (get_default conf ''lbName'' JNull)) (\<lambda>lbName.
       if \<not> truthy lbName then ret []
       else
         seq (pure (bind (getitem conf ''baseId'') (\<lambda>base.
                    bind (py_concat base (JStr ''microsoft.network/loadBalancers/'')) (\<lambda>b.
                    bind (getitem conf ''lbName'') (\<lambda>n. py_concat b n))))) (\<lambda>lbId.
           case lbId of
             JStr u \<Rightarrow>
               (\<lambda>w. case arm_get az u w of
                       (Inr lb, w1) \<Rightarrow>
                         pure (bind (getitem lb ''properties'') (\<lambda>props.
                               bind (getitem props ''inboundNatRules'') (\<lambda>rules.
                               bind (py_iter rules) (\<lambda>rs.
                               bind (non_checkpoint_ids rs) py_set)))) w1
                     | (Inl e, w1) \<Rightarrow>
                         (case e of
                            RequestException code text \<Rightarrow>
                              if code = 404 then (Inr [], w1) else (Inl e, w1)
                          | _ \<Rightarrow> (Inl e, w1)))
           | _ \<Rightarrow> raise TypeError))"

text \<open>Lines 478 to 486: a virtual machine of the cluster, by the name under the key
  \<open>k\<close> of the configuration.\<close>

definition get_vm :: "'c azure \<Rightarrow> json \<Rightarrow> string \<Rightarrow> (json, 'c) prog" where
  "get_vm az conf k =
     seq (pure (bind (getitem conf ''baseId'') (\<lambda>base.
                bind (py_concat base (JStr ''microsoft.compute/virtualmachines/'')) (\<lambda>b.
                bind (getitem conf k) (\<lambda>name. py_concat b name))))) (\<lambda>vm_id.
     seq (pure (url_of vm_id)) (\<lambda>u. arm_get az u))"

text \<open>
  \<^verbatim>\<open>get_vm_primary_nic\<close>: the only interface, or the first one marked primary; when none
  is marked, the loop variable is left at the last one, and with no interface at all it
  is unbound.
\<close>

fun first_primary :: "json list \<Rightarrow> json option \<Rightarrow> exn + json" where
  "first_primary [] last_ni =
     (case last_ni of None \<Rightarrow> Inl UnboundLocalError | Some ni \<Rightarrow> Inr ni)"
| "first_primary (ni # nis) last_ni =
     bind (getitem ni ''properties'') (\<lambda>props.
     bind (get_default props ''primary'' JNull) (\<lambda>primary.
       if truthy primary then Inr ni else first_primary nis (Some ni)))"

definition get_vm_primary_nic :: "'c azure \<Rightarrow> json \<Rightarrow> (json, 'c) prog" where
  "get_vm_primary_nic az vm =
     seq (pure (bind (getitem vm ''properties'') (\<lambda>props.
                bind (getitem props ''networkProfile'') (\<lambda>profile.
                bind (getitem profile ''networkInterfaces'') (\<lambda>nis.
                bind (py_iter nis) (\<lambda>xs.
                  if length xs = 1 then getitem0 nis else first_primary xs None)))))) (\<lambda>ni.
     seq (pure (bind (getitem ni ''id'') url_of)) (\<lambda>u. arm_get az u))"

text \<open>Lines 492 and 493: \<^verbatim>\<open>nic['properties']['ipConfigurations'][0]\<close> and the identifiers
  of its NAT rules.\<close>

definition first_ip_conf :: "json \<Rightarrow> exn + json" where
  "first_ip_conf nic =
     bind (getitem nic ''properties'') (\<lambda>props.
     bind (getitem props ''ipConfigurations'') getitem0)"

definition nat_rule_ids :: "json \<Rightarrow> exn + json list" where
  "nat_rule_ids ip_conf =
     bind (getitem ip_conf ''properties'') (\<lambda>props.
     bind (get_default props ''loadBalancerInboundNatRules'' (JArr [])) (\<lambda>rules.
     bind (py_iter rules) (\<lambda>rs.
     bind (getitem_all rs ''id'') py_set)))"

text \<open>Lines 506 to 514: the cluster public address, \<^verbatim>\<open>None\<close> when the cloud answers 404.\<close>

definition public_ip_id :: "json \<Rightarrow> exn + json" where
  "public_ip_id conf =
     bind (getitem conf ''baseId'') (\<lambda>base.
     bind (py_concat base (JStr ''Microsoft.Network/publicIPAddresses/'')) (\<lambda>b.
     bind (getitem conf ''clusterName'') (\<lambda>n. py_concat b n)))"

definition cluster_public_ip :: "'c azure \<Rightarrow> json \<Rightarrow> (json, 'c) prog" where
  "cluster_public_ip az conf =
     seq (pure (bind (public_ip_id conf) url_of)) (\<lambda>u w.
       case arm_get az u w of
         (Inr public_ip, w1) \<Rightarrow> (Inr public_ip, w1)
       | (Inl e, w1) \<Rightarrow>
           (case e of
              RequestException code text \<Rightarrow>
                if code \<noteq> 404 then (Inl e, w1) else (Inr JNull, w1)
            | _ \<Rightarrow> (Inl e, w1)))"

text \<open>The interface with the properties of its first configuration replaced: the
  source changes them in place, through \<^verbatim>\<open>my_ip_conf\<close> and \<^verbatim>\<open>peer_ip_conf\<close>.\<close>

definition set_first_props :: "json \<Rightarrow> json \<Rightarrow> exn + json" where
  "set_first_props nic p1 =
     bind (getitem nic ''properties'') (\<lambda>props.
     bind (getitem props ''ipConfigurations'') (\<lambda>cfgs.
       case cfgs of
         JArr (c0 # rest) \<Rightarrow>
           Inr (setitem nic ''properties''
                  (setitem props ''ipConfigurations''
                     (JArr (setitem c0 ''properties'' p1 # rest))))
       | _ \<Rightarrow> Inl TypeError))"

text \<open>Lines 531 to 534: the rules of the peer whose identifier ends in a segment that
  starts with \<^verbatim>\<open>checkpoint-\<close>.\<close>

fun checkpoint_rules :: "json list \<Rightarrow> exn + json list" where
  "checkpoint_rules [] = Inr []"
| "checkpoint_rules (r # rs) =
     bind (getitem r ''id'') (\<lambda>i.
     bind (py_split i) (\<lambda>parts.
     bind (checkpoint_rules rs) (\<lambda>keep.
       Inr (if prefix ''checkpoint-'' (last parts) then r # keep else keep))))"

fun py_pop_key :: "json \<Rightarrow> string \<Rightarrow> exn + json" where
  "py_pop_key (JObj kvs) k = Inr (JObj (AList.delete k kvs))"
| "py_pop_key _ k = Inl AttributeError"

text \<open>
  Lines 517 to 551: the decision, given what was read. The result \<open>False\<close> is ``no work
  remains''.
\<close>

definition public_address_decision :: "'c azure \<Rightarrow> json \<Rightarrow> json list \<Rightarrow> json \<Rightarrow> json list
    \<Rightarrow> json \<Rightarrow> json list \<Rightarrow> json \<Rightarrow> (bool, 'c) prog" where
  "public_address_decision az conf non_cp_nat_rules my_nic my_nat_rules peer_nic
       peer_nat_rules public_ip =
     seq (pure (lower_all non_cp_nat_rules)) (\<lambda>non_cp.
     seq (pure (lower_all my_nat_rules)) (\<lambda>mine.
     seq (pure (lower_all peer_nat_rules)) (\<lambda>peers.
     seq (pure (bind (first_ip_conf my_nic) (\<lambda>c. getitem c ''properties''))) (\<lambda>my_props.
     seq (pure (if \<not> truthy public_ip then Inr True
                else bind (get_default my_props ''publicIPAddress'' JNull)
                       (\<lambda>v. Inr (truthy v)))) (\<lambda>settled.
       if settled \<and> set non_cp \<subseteq> set mine then ret False
       else
         seq (pure (bind (first_ip_conf peer_nic) (\<lambda>c. getitem c ''properties''))) (\<lambda>peer_props.
         seq (pure (bind (get_default peer_props ''publicIPAddress'' JNull) (\<lambda>v.
                      Inr (truthy v \<or> set non_cp \<inter> set peers \<noteq> {})))) (\<lambda>held.
           if held
           then
             seq (pure (bind (py_pop_key peer_props ''publicIPAddress'') (\<lambda>p1.
                        bind (get_default p1 ''loadBalancerInboundNatRules'' (JArr [])) (\<lambda>rules.
                        bind (py_iter rules) (\<lambda>rs.
                        bind (checkpoint_rules rs) (\<lambda>keep.
                        bind (set_first_props peer_nic
                                (setitem p1 ''loadBalancerInboundNatRules'' (JArr keep)))
                          (\<lambda>nic1. bind (getitem nic1 ''id'') (\<lambda>rid. Inr (rid, nic1))))))))) (\<lambda>t.
             seq (safe_arm_put az (fst t) (snd t) ''peer NIC public IP disassociation'') (\<lambda>r.
               ret True))
           else
             seq (pure (bind (if truthy public_ip
                              then bind (public_ip_id conf) (\<lambda>pid.
                                     Inr (setitem my_props ''publicIPAddress'' (JObj [(''id'', pid)])))
                              else Inr my_props) (\<lambda>p1.
                        bind (set_first_props my_nic
                                (setitem p1 ''loadBalancerInboundNatRules''
                                   (JArr (map (\<lambda>i. JObj [(''id'', JStr i)])
                                            (remdups (mine @ non_cp))))))
                          (\<lambda>nic1. bind (getitem nic1 ''id'') (\<lambda>rid. Inr (rid, nic1)))))) (\<lambda>t.
             seq (safe_arm_put az (fst t) (snd t) ''my NIC public IP association'') (\<lambda>r.
               ret True)))))))))"

text \<open>\<^verbatim>\<open>set_public_address\<close>.\<close>

definition set_public_address :: "'c azure \<Rightarrow> json \<Rightarrow> (bool, 'c) prog" where
  "set_public_address az conf =
     seq (pure (bind (getitem conf ''hostname'') (\<lambda>h. getitem conf ''peername''))) (\<lambda>names.
     seq (read_non_cp_nat_rules az conf) (\<lambda>non_cp_nat_rules.
     seq (get_vm az conf ''hostname'') (\<lambda>me.
     seq (get_vm az conf ''peername'') (\<lambda>peer.
     seq (get_vm_primary_nic az me) (\<lambda>my_nic.
     seq (is_resource_ready az my_nic) (\<lambda>ready.
       if \<not> ready then ret True
       else
         seq (pure (bind (first_ip_conf my_nic) nat_rule_ids)) (\<lambda>my_nat_rules.
         seq (get_vm_primary_nic az peer) (\<lambda>peer_nic.
         seq (is_resource_ready az peer_nic) (\<lambda>ready.
           if \<not> ready then ret True
           else
             seq (pure (bind (first_ip_conf peer_nic) nat_rule_ids)) (\<lambda>peer_nat_rules.
             seq (cluster_public_ip az conf) (\<lambda>public_ip.
               public_address_decision az conf non_cp_nat_rules my_nic my_nat_rules
                 peer_nic peer_nat_rules public_ip)))))))))))"

text \<open>
  What \<^verbatim>\<open>set_public_address\<close> reads, in the order of the source and without the gate:
  the rules of the load balancer, my primary interface, the peer's, and the cluster
  public address.
\<close>

definition public_address_inputs :: "'c azure \<Rightarrow> json
    \<Rightarrow> (json list \<times> json \<times> json \<times> json, 'c) prog" where
  "public_address_inputs az conf =
     seq (pure (bind (getitem conf ''hostname'') (\<lambda>h. getitem conf ''peername''))) (\<lambda>names.
     seq (read_non_cp_nat_rules az conf) (\<lambda>non_cp_nat_rules.
     seq (get_vm az conf ''hostname'') (\<lambda>me.
     seq (get_vm az conf ''peername'') (\<lambda>peer.
     seq (get_vm_primary_nic az me) (\<lambda>my_nic.
     seq (get_vm_primary_nic az peer) (\<lambda>peer_nic.
     seq (cluster_public_ip az conf) (\<lambda>public_ip.
       ret (non_cp_nat_rules, my_nic, peer_nic, public_ip))))))))"

text \<open>An interface that is ready and whose first configuration has properties and NAT
  rules with strings for identifiers; the rules and the public address of that first
  configuration, \<^verbatim>\<open>ipConfigurations[0]\<close>, which is the one the source reads on lines 492
  and 521, whatever its \<^verbatim>\<open>primary\<close> flag.\<close>

definition ready_nic_ok :: "json \<Rightarrow> bool" where
  "ready_nic_ok nic =
     (provisioning_state nic = Inr (JStr ''Succeeded'')
      \<and> (case bind (first_ip_conf nic) nat_rule_ids of
            Inr ids \<Rightarrow> list_all is_str ids
          | Inl e \<Rightarrow> False))"

definition first_conf_rule_ids :: "json \<Rightarrow> json list" where
  "first_conf_rule_ids nic =
     (case bind (first_ip_conf nic) nat_rule_ids of Inr ids \<Rightarrow> ids | Inl e \<Rightarrow> [])"

definition first_conf_public_ip :: "json \<Rightarrow> json" where
  "first_conf_public_ip nic =
     (case bind (first_ip_conf nic) (\<lambda>c.
           bind (getitem c ''properties'') (\<lambda>p. get_default p ''publicIPAddress'' JNull)) of
        Inr v \<Rightarrow> v
      | Inl e \<Rightarrow> JNull)"

definition lower_ids :: "json list \<Rightarrow> string set" where
  "lower_ids ids = set (case lower_all ids of Inr xs \<Rightarrow> xs | Inl e \<Rightarrow> [])"

text \<open>
  A cluster for the public-address reconciler: a cloud that answers a \<^verbatim>\<open>GET\<close> from a table
  of resources, by the path before the query, and 404 for anything else. The load
  balancer has one rule of its own and one \<^verbatim>\<open>checkpoint-\<close> rule; my primary interface
  already carries the cluster address and the rule, written in another case.
\<close>

definition table_cloud :: "(string \<times> json) list \<Rightarrow> unit azure" where
  "table_cloud resources c r =
     (case map_of resources (takeWhile (\<lambda>x. x \<noteq> CHR ''?'') (url r)) of
        Some v \<Rightarrow> (Inr (ok_headers, v), c)
      | None \<Rightarrow> (Inl (RequestException 404 ''Not Found''), c))"

definition conf_public :: json where
  "conf_public = JObj [(''hostname'', JStr ''fw1''), (''peername'', JStr ''fw2''),
                       (''baseId'', JStr ''/rg/''), (''clusterName'', JStr ''fw''),
                       (''lbName'', JStr ''lb'')]"

definition lb_two_rules :: json where
  "lb_two_rules =
     JObj [(''properties'', JObj [(''inboundNatRules'',
        JArr [JObj [(''name'', JStr ''checkpoint-ssh''), (''id'', JStr ''/lb/checkpoint-ssh'')],
              JObj [(''name'', JStr ''web''), (''id'', JStr ''/LB/Web'')]])])]"

definition vm_with_nic :: "string \<Rightarrow> json" where
  "vm_with_nic nic_id =
     JObj [(''properties'', JObj [(''networkProfile'',
        JObj [(''networkInterfaces'', JArr [JObj [(''id'', JStr nic_id)]])])])]"

definition primary_nic :: "string \<Rightarrow> (string \<times> json) list \<Rightarrow> json" where
  "primary_nic nic_id props =
     JObj [(''id'', JStr nic_id),
           (''properties'', JObj [(''provisioningState'', JStr ''Succeeded''),
              (''ipConfigurations'',
               JArr [JObj [(''name'', JStr ''ipconfig1''), (''properties'', JObj props)]])])]"

definition cluster_address_id :: string where
  "cluster_address_id = ''/rg/Microsoft.Network/publicIPAddresses/fw''"

definition my_primary_settled :: json where
  "my_primary_settled =
     primary_nic ''/rg/nic1''
       [(''publicIPAddress'', JObj [(''id'', JStr cluster_address_id)]),
        (''loadBalancerInboundNatRules'', JArr [JObj [(''id'', JStr ''/lb/web'')]])]"

definition peer_primary_plain :: json where
  "peer_primary_plain = primary_nic ''/rg/nic2'' []"

definition cluster_address :: json where
  "cluster_address = JObj [(''id'', JStr cluster_address_id)]"

definition cluster_cloud :: "json \<Rightarrow> unit azure" where
  "cluster_cloud my_nic =
     table_cloud [(''/rg/microsoft.network/loadBalancers/lb'', lb_two_rules),
                  (''/rg/microsoft.compute/virtualmachines/fw1'', vm_with_nic ''/rg/nic1''),
                  (''/rg/microsoft.compute/virtualmachines/fw2'', vm_with_nic ''/rg/nic2''),
                  (''/rg/nic1'', my_nic),
                  (''/rg/nic2'', peer_primary_plain),
                  (cluster_address_id, cluster_address)]"

definition settled_cloud :: "unit azure" where
  "settled_cloud = cluster_cloud my_primary_settled"

text \<open>
  Modelled from the spec: the primary ipConfig of its glossary, ``the one flagged
  \<^verbatim>\<open>primary: true\<close>'': the first configuration of the interface whose properties hold a
  true \<^verbatim>\<open>primary\<close>, with its public address and the identifiers of its NAT rules.
\<close>

definition flagged_primary :: "json \<Rightarrow> bool" where
  "flagged_primary ipc =
     (case bind (getitem ipc ''properties'') (\<lambda>p. get_default p ''primary'' JNull) of
        Inr v \<Rightarrow> truthy v
      | Inl e \<Rightarrow> False)"

definition spec_primary_conf :: "json \<Rightarrow> json" where
  "spec_primary_conf nic =
     (case filter flagged_primary (nic_configs nic) of c # cs \<Rightarrow> c | [] \<Rightarrow> JNull)"

definition spec_primary_public_ip :: "json \<Rightarrow> json" where
  "spec_primary_public_ip nic =
     (case bind (getitem (spec_primary_conf nic) ''properties'')
             (\<lambda>p. get_default p ''publicIPAddress'' JNull) of
        Inr v \<Rightarrow> v
      | Inl e \<Rightarrow> JNull)"

definition spec_primary_rule_ids :: "json \<Rightarrow> json list" where
  "spec_primary_rule_ids nic =
     (case nat_rule_ids (spec_primary_conf nic) of Inr ids \<Rightarrow> ids | Inl e \<Rightarrow> [])"

text \<open>My primary interface with two configurations: the first one bare, the second one
  flagged \<^verbatim>\<open>primary\<close> and already carrying the cluster address and the rule.\<close>

definition my_primary_second :: json where
  "my_primary_second =
     JObj [(''id'', JStr ''/rg/nic1''),
           (''properties'', JObj [(''provisioningState'', JStr ''Succeeded''),
              (''ipConfigurations'',
               JArr [JObj [(''name'', JStr ''ipconfig1''),
                           (''properties'', JObj [(''primary'', JBool False)])],
                     JObj [(''name'', JStr ''ipconfig2''),
                           (''properties'',
                            JObj [(''primary'', JBool True),
                                  (''publicIPAddress'', JObj [(''id'', JStr cluster_address_id)]),
                                  (''loadBalancerInboundNatRules'',
                                   JArr [JObj [(''id'', JStr ''/lb/web'')]])])]])])]"

definition second_primary_cloud :: "unit azure" where
  "second_primary_cloud = cluster_cloud my_primary_second"

section \<open>Properties of the edge-zone aware PUT\<close>

lemma log_fields [simp]:
  "exchanges (log l m w) = exchanges w"
  "logged (log l m w) = logged w @ [(l, m)]"
  "heap (log l m w) = heap w"
  "status_file (log l m w) = status_file w"
  "puts (log l m w) = puts w"
  "cloud (log l m w) = cloud w"
  by (simp_all add: log_def)

lemma issuedI: "exchanges w1 = exchanges w @ xs \<Longrightarrow> issued w w1 = xs"
  by (simp add: issued_def)


lemma new_putsI: "puts w1 = puts w @ xs \<Longrightarrow> new_puts w w1 = xs"
  by (simp add: new_puts_def)

lemma arm_fields:
  assumes "arm az m u b w = (ans, w1)"
  shows "exchanges w1 = exchanges w @ [(\<lparr>meth = m, url = u, body = b\<rparr>, ans)]"
    and "logged w1 = logged w" and "heap w1 = heap w" and "status_file w1 = status_file w"
    and "puts w1 = puts w"
  using assms by (auto simp: arm_def Let_def split: prod.splits)

lemma extended_zone_context_fields:
  assumes "extended_zone_context body_obj d w = (r, w1)"
  shows "exchanges w1 = exchanges w" and "heap w1 = heap w" and "status_file w1 = status_file w"
    and "\<exists>ls. logged w1 = logged w @ ls" and "puts w1 = puts w"
  using assms
  by (auto simp: extended_zone_context_def split: if_splits sum.splits bool.splits)

lemma is_iel_request: "is_invalid_extended_location e \<Longrightarrow> is_request_exception e"
  by (cases e) (simp_all add: is_invalid_extended_location_def)

text \<open>The standard PUT sends nothing when the identifier is no string, and one request
  otherwise.\<close>

lemma standard_put_no_url:
  "url_of rid = Inl e \<Longrightarrow> standard_put az rid bj d w = (Inl e, w)"
  by (simp add: standard_put_def)

lemma standard_put_one:
  assumes "url_of rid = Inr u" and "standard_put az rid bj d w = (res, w1)"
  obtains ans ls where "exchanges w1 = exchanges w @ [(put_request u bj, ans)]"
    and "res = try_result ans" and "logged w1 = logged w @ ls"
    and "heap w1 = heap w" and "status_file w1 = status_file w" and "puts w1 = puts w"
proof -
  obtain ans w0 where a: "arm az ''PUT'' u (Some bj) w = (ans, w0)"
    by (cases "arm az ''PUT'' u (Some bj) w")
  note f = arm_fields [OF a]
  show thesis
  proof (cases ans)
    case (Inl e)
    with assms a f show thesis
      by (intro that [of ans "[]"]) (auto simp: standard_put_def put_request_def try_result_def)
  next
    case (Inr result)
    show thesis
    proof (cases "str_is_200 (response_code result)")
      case True
      with Inr assms a f show thesis
        by (intro that [of ans "[(INFO, d @ '' succeeded'')]"])
           (auto simp: standard_put_def put_request_def try_result_def)
    next
      case False
      with Inr assms a f show thesis
        by (intro that [of ans "[(ERROR, ''Failed '' @ d)]"])
           (auto simp: standard_put_def put_request_def try_result_def)
    qed
  qed
qed

lemma enhanced_put_no_url:
  "url_of rid = Inl e \<Longrightarrow>
   enhanced_put az rid body_obj bj ctx d w =
     (Inl e, log DEBUG ''Extended Zone context''
               (log INFO (''Attempting Enhanced Extended Zone ARM PUT for '' @ d) w))"
  by (simp add: enhanced_put_def Let_def)

lemma enhanced_put_one:
  assumes "url_of rid = Inr u" and "enhanced_put az rid body_obj bj ctx d w = (res, w1)"
  obtains ans b ls where "exchanges w1 = exchanges w @ [(put_request u b, ans)]"
    and "logged w1 = logged w @ ls"
    and "heap w1 = heap w" and "status_file w1 = status_file w" and "puts w1 = puts w"
    and "falls_through ans \<Longrightarrow> res = Inr None"
    and "\<not> falls_through ans \<Longrightarrow>
           (case try_result ans of Inl e \<Rightarrow> res = Inl e | Inr v \<Rightarrow> res = Inr (Some v))"
proof -
  define b where "b = (if is_dict body_obj \<and> py_in ''extendedLocation'' body_obj = Inr False
             then Dumps (setitem body_obj ''extendedLocation'' ctx) else bj)"
  define w2 where "w2 = log DEBUG ''Extended Zone context''
             (log INFO (''Attempting Enhanced Extended Zone ARM PUT for '' @ d) w)"
  obtain ans w0 where a: "arm az ''PUT'' u (Some b) w2 = (ans, w0)"
    by (cases "arm az ''PUT'' u (Some b) w2")
  note f = arm_fields [OF a]
  have run: "enhanced_put az rid body_obj bj ctx d w =
     (case ans of
        Inr result \<Rightarrow>
          if str_is_200 (response_code result)
          then (Inr (Some (snd result)),
                log INFO (''Extended Zone ARM PUT succeeded for '' @ d) w0)
          else (Inr None, log WARNING (''Extended Zone ARM PUT failed for '' @ d) w0)
      | Inl e \<Rightarrow>
          if is_invalid_extended_location e
          then (Inr None, log WARNING (''Extended Zone ARM PUT failed for '' @ d) w0)
          else (Inl e, w0))"
    using assms(1) a
    by (auto simp: enhanced_put_def Let_def b_def w2_def is_iel_request split: sum.splits)
  have ex: "exchanges w1 = exchanges w @ [(put_request u b, ans)]"
    and fr: "heap w1 = heap w" "status_file w1 = status_file w" "puts w1 = puts w"
    and lg: "\<exists>ls. logged w1 = logged w @ ls"
    using assms(2) f unfolding run
    by (auto simp: put_request_def w2_def split: sum.splits if_splits)
  from lg obtain ls where ls: "logged w1 = logged w @ ls" by blast
  have 1: "res = Inr None" if "falls_through ans"
    using assms(2) that unfolding run
    by (auto simp: falls_through_def split: sum.splits if_splits)
  have 2: "(case try_result ans of Inl e \<Rightarrow> res = Inl e | Inr v \<Rightarrow> res = Inr (Some v))"
    if "\<not> falls_through ans"
    using assms(2) that unfolding run
    by (auto simp: falls_through_def try_result_def split: sum.splits if_splits)
  from ex ls fr 1 2 show thesis by (rule that)
qed

lemma safe_arm_put_try_shape:
  assumes "safe_arm_put_try az rid body_obj d w = (res, w1)"
  shows "(\<exists>ls. logged w1 = logged w @ ls) \<and>
         heap w1 = heap w \<and> status_file w1 = status_file w \<and> puts w1 = puts w \<and>
         (issued w w1 = []
          \<or> (\<exists>x. issued w w1 = [x] \<and> res = try_result (snd x))
          \<or> (\<exists>x y. issued w w1 = [x, y] \<and> falls_through (snd x) \<and> res = try_result (snd y)))"
proof -
  define bj where "bj = (if is_dict body_obj \<or> is_list body_obj then Dumps body_obj else Raw body_obj)"
  obtain c wc where c: "extended_zone_context body_obj d w = (c, wc)"
    by (cases "extended_zone_context body_obj d w")
  note cf = extended_zone_context_fields [OF c]
  from cf(4) obtain l0 where l0: "logged wc = logged w @ l0" by blast
  show ?thesis
  proof (cases "url_of rid")
    case (Inl e)
    have s: "standard_put az rid bj d wa = (Inl e, wa)" for wa
      by (rule standard_put_no_url [OF Inl])
    note en = enhanced_put_no_url [OF Inl, of az body_obj bj _ d wc]
    from assms c cf l0
    have "exchanges w1 = exchanges w \<and> (\<exists>ls. logged w1 = logged w @ ls)
          \<and> heap w1 = heap w \<and> status_file w1 = status_file w \<and> puts w1 = puts w"
      by (auto simp: safe_arm_put_try_def Let_def s en bj_def [symmetric]
               split: sum.splits option.splits if_splits)
    then show ?thesis by (auto simp: issued_def)
  next
    case (Inr u)
    have std: ?thesis if s: "standard_put az rid bj d wc = (res, w1)"
    proof -
      from standard_put_one [OF Inr s] obtain ans ls where
        "exchanges w1 = exchanges wc @ [(put_request u bj, ans)]" "res = try_result ans"
        "logged w1 = logged wc @ ls" "heap w1 = heap wc" "status_file w1 = status_file wc"
        "puts w1 = puts wc"
        by blast
      with cf l0 show ?thesis by (auto simp: issued_def)
    qed
    show ?thesis
    proof (cases c)
      case (Inl e)
      with assms c cf l0 show ?thesis
        by (auto simp: safe_arm_put_try_def Let_def issued_def)
    next
      case cr: (Inr copt)
      show ?thesis
      proof (cases copt)
        case None
        with cr assms c have "standard_put az rid bj d wc = (res, w1)"
          by (simp add: safe_arm_put_try_def bj_def)
        then show ?thesis by (rule std)
      next
        case (Some ctx)
        show ?thesis
        proof (cases "truthy ctx")
          case False
          with Some cr assms c have "standard_put az rid bj d wc = (res, w1)"
            by (simp add: safe_arm_put_try_def bj_def)
          then show ?thesis by (rule std)
        next
          case True
          obtain r2 w2 where e: "enhanced_put az rid body_obj bj ctx d wc = (r2, w2)"
            by (cases "enhanced_put az rid body_obj bj ctx d wc")
          from enhanced_put_one [OF Inr e] obtain ans b l2 where
            x: "exchanges w2 = exchanges wc @ [(put_request u b, ans)]"
               "logged w2 = logged wc @ l2"
               "heap w2 = heap wc" "status_file w2 = status_file wc" "puts w2 = puts wc"
               "falls_through ans \<Longrightarrow> r2 = Inr None"
               "\<not> falls_through ans \<Longrightarrow>
                  (case try_result ans of Inl e \<Rightarrow> r2 = Inl e | Inr v \<Rightarrow> r2 = Inr (Some v))"
            by blast
          from assms c cr Some True e
          have r: "(case r2 of Inl e \<Rightarrow> (res, w1) = (Inl e, w2)
                     | Inr None \<Rightarrow> standard_put az rid bj d w2 = (res, w1)
                     | Inr (Some v) \<Rightarrow> (res, w1) = (Inr v, w2))"
            by (auto simp: safe_arm_put_try_def bj_def Let_def split: sum.splits option.splits)
          show ?thesis
          proof (cases "falls_through ans")
            case ft: True
            with x(6) r have s: "standard_put az rid bj d w2 = (res, w1)" by simp
            from standard_put_one [OF Inr s] obtain ans2 ls where
              "exchanges w1 = exchanges w2 @ [(put_request u bj, ans2)]" "res = try_result ans2"
              "logged w1 = logged w2 @ ls" "heap w1 = heap w2" "status_file w1 = status_file w2"
              "puts w1 = puts w2"
              by blast
            with x(1-5) ft cf l0 show ?thesis by (auto simp: issued_def)
          next
            case nft: False
            from x(7) [OF nft] r have "res = try_result ans \<and> w1 = w2"
              by (cases "try_result ans") auto
            with x(1-5) cf l0 show ?thesis by (auto simp: issued_def)
          qed
        qed
      qed
    qed
  qed
qed

text \<open>The handler of the outer \<^verbatim>\<open>try\<close>, case by case.\<close>

lemma safe_arm_put_cases:
  assumes "safe_arm_put az rid body_obj d w = (res, w1)"
  obtains r wt ls where
    "safe_arm_put_try az rid body_obj d (w\<lparr>puts := puts w @ [(rid, body_obj, d)]\<rparr>) = (r, wt)"
    and "res = handler_result body_obj r" and "exchanges w1 = exchanges wt"
    and "heap w1 = heap wt" and "status_file w1 = status_file wt" and "puts w1 = puts wt"
    and "logged w1 = logged wt @ ls"
proof -
  let ?w = "w\<lparr>puts := puts w @ [(rid, body_obj, d)]\<rparr>"
  obtain r wt where t: "safe_arm_put_try az rid body_obj d ?w = (r, wt)"
    by (cases "safe_arm_put_try az rid body_obj d ?w")
  show thesis
  proof (cases r)
    case (Inr v)
    with assms t have "res = Inr v" "w1 = wt" by (simp_all add: safe_arm_put_def)
    with t Inr show thesis
      by (intro that [of r wt "[]"]) (simp_all add: handler_result_def)
  next
    case (Inl e)
    show thesis
    proof (cases "is_invalid_extended_location e")
      case True
      let ?ls = "[(WARNING, ''Extended Zone conflict detected for '' @ d),
         (INFO, ''Extended Zone limitation - VIP operation cannot be performed via standard ARM API''),
         (INFO, ''This is a known Azure Extended Zone limitation affecting HA failover operations''),
         (INFO, ''Consider using Azure Support case to resolve Extended Zone ARM API compatibility''),
         (WARNING, ''Returning modified object to continue HA daemon operation''),
         (WARNING, ''Actual VIP failover may require manual intervention or Azure Support assistance'')]"
      from assms t Inl True is_iel_request [OF True]
      have eq: "res = Inr body_obj" "exchanges w1 = exchanges wt" "heap w1 = heap wt"
        "status_file w1 = status_file wt" "puts w1 = puts wt" "logged w1 = logged wt @ ?ls"
        by (auto simp: safe_arm_put_def)
      show thesis
      proof (rule that [of r wt ?ls])
        show "res = handler_result body_obj r"
          using eq(1) Inl True by (simp add: handler_result_def)
      qed (use t eq in simp_all)
    next
      case False
      from assms t Inl False
      have eq: "res = Inl e" "exchanges w1 = exchanges wt" "heap w1 = heap wt"
        "status_file w1 = status_file wt" "puts w1 = puts wt"
        "\<exists>ls. logged w1 = logged wt @ ls"
        by (auto simp: safe_arm_put_def split: if_splits)
      from eq(6) obtain ls where ls: "logged w1 = logged wt @ ls" by blast
      show thesis
      proof (rule that [of r wt ls])
        show "res = handler_result body_obj r"
          using eq(1) Inl False by (simp add: handler_result_def)
      qed (use t eq ls in simp_all)
    qed
  qed
qed

lemma safe_arm_put_frame:
  assumes "safe_arm_put az rid body_obj d w = (res, w1)"
  shows "heap w1 = heap w" and "status_file w1 = status_file w"
    and "puts w1 = puts w @ [(rid, body_obj, d)]"
proof -
  from safe_arm_put_cases [OF assms] obtain r wt where
    t: "safe_arm_put_try az rid body_obj d (w\<lparr>puts := puts w @ [(rid, body_obj, d)]\<rparr>) = (r, wt)"
    and f: "heap w1 = heap wt" "status_file w1 = status_file wt" "puts w1 = puts wt"
    by blast
  from safe_arm_put_try_shape [OF t] f
  show "heap w1 = heap w" and "status_file w1 = status_file w"
    and "puts w1 = puts w @ [(rid, body_obj, d)]"
    by simp_all
qed

lemma safe_arm_put_shape:
  assumes "safe_arm_put az rid body_obj d w = (res, w1)"
  shows "issued w w1 = []
          \<or> (\<exists>x. issued w w1 = [x] \<and> res = final_result body_obj (snd x))
          \<or> (\<exists>x y. issued w w1 = [x, y] \<and> falls_through (snd x)
                \<and> res = final_result body_obj (snd y))"
proof -
  let ?w = "w\<lparr>puts := puts w @ [(rid, body_obj, d)]\<rparr>"
  from safe_arm_put_cases [OF assms] obtain r wt where
    t: "safe_arm_put_try az rid body_obj d ?w = (r, wt)"
    and r: "res = handler_result body_obj r" and x: "exchanges w1 = exchanges wt"
    by blast
  from x have i: "issued ?w wt = issued w w1" by (simp add: issued_def)
  from safe_arm_put_try_shape [OF t]
  have "issued w w1 = []
          \<or> (\<exists>x. issued w w1 = [x] \<and> r = try_result (snd x))
          \<or> (\<exists>x y. issued w w1 = [x, y] \<and> falls_through (snd x) \<and> r = try_result (snd y))"
    unfolding i by blast
  then show ?thesis
    unfolding r by (elim disjE exE conjE) (simp_all add: final_result_def)
qed







text \<open>
  C6, as amended. Every exception that a PUT inside \<^verbatim>\<open>safe_arm_put\<close> raises, other than
  the HTTP 409 \<^verbatim>\<open>InvalidExtendedLocation\<close> conflict, is raised to the caller. (A response
  whose code is not 200 is no exception: see the counterexample.)
\<close>

theorem safe_arm_put_reraises:
  assumes "safe_arm_put az rid body_obj d w = (res, w1)" and "x \<in> set (issued w w1)"
    and "snd x = Inl e" and "\<not> is_invalid_extended_location e"
  shows "res = Inl e"
  using safe_arm_put_shape [OF assms(1)] assms(2-4)
  by (elim disjE exE conjE)
     (auto simp: final_result_def handler_result_def try_result_def falls_through_def)

text \<open>Witness for C6: the cloud denies access with HTTP 403.\<close>

theorem safe_arm_put_reraises_witness:
  "fst (safe_arm_put forbidden_cloud (JStr ''/nic1'') vnet_zone_nic ''route table update'' world0)
     = Inl (RequestException 403 ''AuthorizationFailed'')"
proof -
  let ?run = "safe_arm_put forbidden_cloud (JStr ''/nic1'') vnet_zone_nic ''route table update'' world0"
  let ?x = "hd (issued world0 (snd ?run))"
  have r: "?run = (fst ?run, snd ?run)" by simp
  have i: "?x \<in> set (issued world0 (snd ?run))" by code_simp
  have l: "snd ?x = Inl (RequestException 403 ''AuthorizationFailed'')" by code_simp
  have e: "\<not> is_invalid_extended_location (RequestException 403 ''AuthorizationFailed'')"
    by code_simp
  from safe_arm_put_reraises [OF r i l e] show ?thesis .
qed

text \<open>
  C6 as stated fails: the cloud answers the PUT with code 500 and raises nothing;
  \<^verbatim>\<open>safe_arm_put\<close> logs an error and returns \<^verbatim>\<open>None\<close> instead of raising.
\<close>

theorem safe_arm_put_failed_response_counterexample:
  "map snd (issued world0
      (snd (safe_arm_put failing_cloud (JStr ''/nic1'') accepted_nic ''route table update'' world0)))
     = [Inr (JObj [(''code'', JNum 500)], JStr ''InternalServerError'')]
   \<and> fst (safe_arm_put failing_cloud (JStr ''/nic1'') accepted_nic ''route table update'' world0)
       = Inr JNull
   \<and> written world0
        (snd (safe_arm_put failing_cloud (JStr ''/nic1'') accepted_nic ''route table update'' world0))
       = [(ERROR, ''Failed route table update'')]"
  by code_simp

section \<open>Properties of the API version and of the peer name\<close>

text \<open>
  C4 fails on the code. The daemon builds the identifier of the local virtual machine
  with the provider in lower case (\<^verbatim>\<open>microsoft.compute/virtualmachines/\<close>, lines 479 and
  614), and \<^verbatim>\<open>get_api_version\<close> tests for \<^verbatim>\<open>Microsoft.Compute/\<close> in this very spelling, so
  it misses its own branch and appends the generic version \<^verbatim>\<open>2021-04-01\<close>. The longest
  prefix of the provider-relative path in the mapping of either profile is \<^verbatim>\<open>compute/\<close>,
  with the version \<^verbatim>\<open>2019-07-01\<close>, which is also what \<^verbatim>\<open>get_api_version\<close> appends to the
  same identifier in the spelling of Azure.
\<close>

theorem get_api_version_misses_lower_case:
  "get_api_version vm_id_example = ''?api-version=2021-04-01''
   \<and> spec_api_version ''ha'' vm_id_example = ''?api-version=2019-07-01''
   \<and> spec_api_version ''stack-ha'' vm_id_example = ''?api-version=2019-07-01''
   \<and> get_api_version vm_id_azure_example = ''?api-version=2019-07-01''
   \<and> spec_api_version ''ha'' vm_id_azure_example = ''?api-version=2019-07-01''"
  by code_simp

lemma suffix_single: "suffix [c] s \<longleftrightarrow> s \<noteq> [] \<and> last s = c"
proof (cases s rule: rev_cases)
  case Nil
  then show ?thesis by simp
next
  case (snoc xs x)
  then show ?thesis by (auto simp: suffix_def)
qed

lemma getitem_setitem_same: "is_dict d \<Longrightarrow> getitem (setitem d k v) k = Inr v"
  by (cases d) (simp_all add: update_conv')

lemma getitem_setitem_other: "k \<noteq> k' \<Longrightarrow> getitem (setitem d k v) k' = getitem d k'"
  by (cases d) (simp_all add: update_conv')

lemma is_dict_setitem [simp]: "is_dict (setitem d k v) = is_dict d"
  by (cases d) simp_all

text \<open>
  C10. If the loaded configuration has no \<^verbatim>\<open>peername\<close> key, \<^verbatim>\<open>reconf\<close> derives the peer
  name from the host name: the host name without its last character, followed by
  \<^verbatim>\<open>2\<close> when the host name ends with \<^verbatim>\<open>1\<close> and by \<^verbatim>\<open>1\<close> otherwise, whatever the last
  character is.
\<close>

theorem reconf_peername_derived:
  assumes "py_in ''peername'' c = Inr False"
    and "get_default c ''hostname'' (JStr gethostname) = Inr (JStr h)"
    and "is_dict conf"
  shows "\<exists>conf1. reconf_names c gethostname conf = Inr conf1
           \<and> getitem conf1 ''hostname'' = Inr (JStr h)
           \<and> getitem conf1 ''peername'' =
               Inr (JStr (butlast h @ (if h \<noteq> [] \<and> last h = CHR ''1'' then ''2'' else ''1'')))"
  using assms
  by (simp add: reconf_names_def bind_def Let_def getitem_setitem_same getitem_setitem_other
        suffix_single butlast_conv_take)

text \<open>Witness for C10: a host name that ends with a letter.\<close>

theorem reconf_peername_derived_witness:
  "\<exists>conf1. reconf_names (JObj [(''hostname'', JStr ''gw-b'')]) ''localhost'' (JObj []) = Inr conf1
           \<and> getitem conf1 ''hostname'' = Inr (JStr ''gw-b'')
           \<and> getitem conf1 ''peername'' = Inr (JStr ''gw-1'')"
proof -
  have a: "py_in ''peername'' (JObj [(''hostname'', JStr ''gw-b'')]) = Inr False" by simp
  have b: "get_default (JObj [(''hostname'', JStr ''gw-b'')]) ''hostname'' (JStr ''localhost'')
             = Inr (JStr ''gw-b'')" by simp
  have c: "is_dict (JObj [])" by simp
  from reconf_peername_derived [OF a b c] show ?thesis by simp
qed

section \<open>Properties of the event loop\<close>

lemma drain_tags:
  "drain dgrams errno events = Inr evs \<Longrightarrow> PyStr t \<in> set evs
    \<Longrightarrow> PyStr t \<in> set events \<or> t = ''CHANGED''"
proof (induction dgrams arbitrary: events)
  case Nil
  then show ?case by (auto split: if_splits)
next
  case (Cons dgram rest)
  from Cons.prems(1) have "drain rest errno (events @ [PyBytes dgram]) = Inr evs"
    by (simp split: if_splits)
  from Cons.IH [OF this Cons.prems(2)] show ?case by auto
qed

lemma drain_no_stop: "drain dgrams errno [] = Inr evs \<Longrightarrow> PyStr ''STOP'' \<notin> set evs"
  by (auto dest: drain_tags)

lemma drain_no_reconf: "drain dgrams errno [] = Inr evs \<Longrightarrow> PyStr ''RECONF'' \<notin> set evs"
  by (auto dest: drain_tags)

text \<open>No datagram ends the loop, and no datagram makes it call \<^verbatim>\<open>reconf\<close>: the result does
  not depend on that handler.\<close>

lemma run_never_left: "run reconf poll ticks s \<noteq> Left s1"
proof (induction ticks arbitrary: s)
  case Nil
  show ?case by simp
next
  case (Cons tick ticks)
  obtain dgrams errno where t: "tick = (dgrams, errno)" by (cases tick)
  show ?case
  proof (cases "drain dgrams errno []")
    case (Inl e)
    with t show ?thesis by simp
  next
    case (Inr evs)
    with t Cons drain_no_stop [OF Inr] show ?thesis
      by (simp split: prod.splits sum.splits)
  qed
qed

lemma run_without_reconf: "run reconf poll ticks s = run reconf1 poll ticks s"
proof (induction ticks arbitrary: s)
  case Nil
  show ?case by simp
next
  case (Cons tick ticks)
  obtain dgrams errno where t: "tick = (dgrams, errno)" by (cases tick)
  show ?case
  proof (cases "drain dgrams errno []")
    case (Inl e)
    with t show ?thesis by simp
  next
    case (Inr evs)
    with t Cons drain_no_stop [OF Inr] drain_no_reconf [OF Inr] show ?thesis
      by (simp split: prod.splits sum.splits)
  qed
qed

text \<open>
  C3 fails on the code. A tick drains the datagram \<^verbatim>\<open>STOP\<close>, the next one the datagram
  \<^verbatim>\<open>RECONF\<close>: the loop is still running after both, and only \<^verbatim>\<open>poll\<close> has run, twice. The
  datagrams are in the set as \<^verbatim>\<open>bytes\<close>, the tests look for \<^verbatim>\<open>str\<close>.
\<close>

theorem run_ignores_stop_and_reconf:
  "run note_reconf note_poll [([''STOP''], EAGAIN), ([''RECONF''], EAGAIN)] []
     = Running [''poll'', ''poll'']"
  by code_simp

section \<open>Properties of the route-table reconciler\<close>

lemma split_on_nonempty [simp]: "split_on c s \<noteq> []"
  by (induction s) (auto split: list.splits)

lemma split_on_cases:
  "(c \<notin> set s \<and> split_on c s = [s])
   \<or> (\<exists>a b. s = a @ c # b \<and> c \<notin> set a \<and> split_on c s = a # split_on c b)"
proof (induction s)
  case Nil
  show ?case by simp
next
  case (Cons x xs)
  show ?case
  proof (cases "x = c")
    case True
    then have "x # xs = [] @ c # xs \<and> c \<notin> set [] \<and> split_on c (x # xs) = [] # split_on c xs"
      by simp
    then show ?thesis by blast
  next
    case False
    from Cons show ?thesis
    proof (elim disjE exE conjE)
      assume "c \<notin> set xs" "split_on c xs = [xs]"
      with False show ?thesis by simp
    next
      fix a b
      assume "xs = a @ c # b" "c \<notin> set a" "split_on c xs = a # split_on c b"
      with False have "x # xs = (x # a) @ c # b \<and> c \<notin> set (x # a)
          \<and> split_on c (x # xs) = (x # a) # split_on c b"
        by simp
      then show ?thesis by blast
    qed
  qed
qed

lemma split_on_two:
  "(length (split_on c s) = 2 \<and> split_on c s ! 0 = a \<and> split_on c s ! 1 = b)
   \<longleftrightarrow> (s = a @ c # b \<and> c \<notin> set a \<and> c \<notin> set b)"
proof
  assume l: "length (split_on c s) = 2 \<and> split_on c s ! 0 = a \<and> split_on c s ! 1 = b"
  from split_on_cases [of c s] show "s = a @ c # b \<and> c \<notin> set a \<and> c \<notin> set b"
  proof (elim disjE exE conjE)
    assume "split_on c s = [s]"
    with l show ?thesis by simp
  next
    fix a1 b1
    assume s: "s = a1 @ c # b1" "c \<notin> set a1" "split_on c s = a1 # split_on c b1"
    with l have l1: "length (split_on c b1) = 1" "a1 = a" "split_on c b1 ! 0 = b" by simp_all
    from split_on_cases [of c b1] l1 have "c \<notin> set b1 \<and> split_on c b1 = [b1]"
      by (auto simp: length_Suc_conv)
    with l1 s show ?thesis by simp
  qed
next
  assume r: "s = a @ c # b \<and> c \<notin> set a \<and> c \<notin> set b"
  have 1: "split_on c (a1 @ c # b1) = a1 # split_on c b1" if "c \<notin> set a1" for a1 b1
    using that by (induction a1) auto
  have 2: "split_on c b = [b]"
    using split_on_cases [of c b] r by auto
  from r 1 [of a b] 2 show "length (split_on c s) = 2 \<and> split_on c s ! 0 = a \<and> split_on c s ! 1 = b"
    by simp
qed

lemma is_peer_host_prefix_iff:
  "is_peer_host_prefix peer s \<longleftrightarrow> (\<exists>p. JStr p \<in> set peer \<and> CHR ''/'' \<notin> set p \<and> s = p @ ''/32'')"
proof
  assume "is_peer_host_prefix peer s"
  then obtain x where x: "x \<in> set peer"
    and c: "(case x of JStr p \<Rightarrow> CHR ''/'' \<notin> set p \<and> s = p @ ''/32'' | _ \<Rightarrow> False)"
    unfolding is_peer_host_prefix_def list_ex_iff by blast
  have "\<exists>p. x = JStr p \<and> CHR ''/'' \<notin> set p \<and> s = p @ ''/32''"
    by (insert c, cases x) auto
  with x show "\<exists>p. JStr p \<in> set peer \<and> CHR ''/'' \<notin> set p \<and> s = p @ ''/32''"
    by blast
next
  assume "\<exists>p. JStr p \<in> set peer \<and> CHR ''/'' \<notin> set p \<and> s = p @ ''/32''"
  then show "is_peer_host_prefix peer s"
    unfolding is_peer_host_prefix_def list_ex_iff by force
qed

lemma skip_test_iff:
  "(length (split_on CHR ''/'' s) = 2 \<and> JStr (split_on CHR ''/'' s ! 0) \<in> set peer
      \<and> split_on CHR ''/'' s ! 1 = ''32'')
   \<longleftrightarrow> is_peer_host_prefix peer s"
proof -
  have "(length (split_on CHR ''/'' s) = 2 \<and> JStr (split_on CHR ''/'' s ! 0) \<in> set peer
      \<and> split_on CHR ''/'' s ! 1 = ''32'')
    \<longleftrightarrow> (\<exists>p. JStr p \<in> set peer \<and> (length (split_on CHR ''/'' s) = 2
           \<and> split_on CHR ''/'' s ! 0 = p \<and> split_on CHR ''/'' s ! 1 = ''32''))"
    by auto
  also have "\<dots> \<longleftrightarrow> (\<exists>p. JStr p \<in> set peer \<and> CHR ''/'' \<notin> set p \<and> s = p @ ''/32'')"
    unfolding split_on_two by auto
  finally show ?thesis by (simp add: is_peer_host_prefix_iff)
qed

lemma index_of_less: "x \<in> set xs \<Longrightarrow> index_of xs x < length xs"
  by (induction xs) auto

lemma rewrite_route_ok:
  assumes "route_ok route" and "length me = length peer"
  shows "rewrite_route me peer route =
           Inr (if should_rewrite peer route then (rewritten me peer route, True)
                else (route, False))"
proof -
  from assms(1) obtain ps where p: "getitem route ''properties'' = Inr (JObj ps)"
    and t: "map_of ps ''nextHopType'' \<noteq> None"
    and a: "(case map_of ps ''addressPrefix'' of
                None \<Rightarrow> True | Some (JStr s) \<Rightarrow> True | Some v \<Rightarrow> False)"
    by (auto simp: route_ok_def split: sum.splits json.splits)
  from t obtain ty where ty: "map_of ps ''nextHopType'' = Some ty" by blast
  define nh where "nh = (case map_of ps ''nextHopIpAddress'' of Some v \<Rightarrow> v | None \<Rightarrow> JNull)"
  define ap where "ap = route_prefix route"
  have f1: "route_field route ''nextHopType'' = ty"
    using p ty by (simp add: route_field_def bind_def)
  have f2: "route_field route ''nextHopIpAddress'' = nh"
    using p by (simp add: route_field_def bind_def nh_def)
  have f3: "get_default (JObj ps) ''addressPrefix'' (JStr []) = Inr (JStr ap)"
    using p a by (auto simp: ap_def route_prefix_def route_field_def bind_def
                       split: option.splits json.splits)
  have idx: "py_nth me (index_of peer nh) = Inr (me ! index_of peer nh)" if "nh \<in> set peer"
    using index_of_less [OF that] assms(2) by (simp add: py_nth_def)
  show ?thesis
    using p ty f3 idx
    by (auto simp: rewrite_route_def bind_def should_rewrite_def rewritten_def f1 f2
          skip_test_iff [unfolded One_nat_def] nh_def [symmetric] ap_def [symmetric])
qed

lemma rewrite_routes_ok:
  assumes "\<forall>r\<in>set routes. route_ok r" and "length me = length peer"
  shows "rewrite_routes me peer routes =
           Inr (map (\<lambda>r. if should_rewrite peer r then rewritten me peer r else r) routes,
                list_ex (should_rewrite peer) routes)"
  using assms(1)
proof (induction routes)
  case Nil
  show ?case by simp
next
  case (Cons r routes)
  then have "route_ok r" and "\<forall>r\<in>set routes. route_ok r" by simp_all
  from rewrite_route_ok [OF this(1) assms(2)] Cons.IH [OF this(2)] show ?case
    by (simp add: bind_def)
qed

lemma rewrite_table_ok:
  assumes "getitem route_table ''properties'' = Inr props"
    and "get_default props ''routes'' (JArr []) = Inr (JArr routes)"
    and "\<forall>r\<in>set routes. route_ok r" and "length me = length peer"
  shows "rewrite_table me peer route_table =
           Inr (if list_ex (should_rewrite peer) routes
                then setitem route_table ''properties''
                       (setitem props ''routes''
                          (JArr (map (\<lambda>r. if should_rewrite peer r then rewritten me peer r else r)
                                   routes)))
                else route_table,
                list_ex (should_rewrite peer) routes)"
  using assms(1,2) rewrite_routes_ok [OF assms(3,4)]
  by (simp add: rewrite_table_def bind_def)

lemma update_route_table_puts:
  assumes "rewrite_table me peer route_table = Inr (t, dirty)"
    and "update_route_table az me peer rid route_table w = (res, w1)"
  shows "new_puts w w1 = (if dirty then [(rid, t, ''route table update'')] else [])"
proof (cases dirty)
  case False
  with assms show ?thesis
    by (simp add: update_route_table_def seq_def pure_def ret_def new_puts_def)
next
  case True
  obtain r2 w2 where s: "safe_arm_put az rid t ''route table update'' w = (r2, w2)"
    by (cases "safe_arm_put az rid t ''route table update'' w")
  from assms True s have "w1 = w2"
    by (auto simp: update_route_table_def seq_def pure_def ret_def split: sum.splits)
  with safe_arm_put_frame(3) [OF s] True show ?thesis
    by (simp add: new_puts_def)
qed

text \<open>
  C7, as amended. In a route table that passed the provisioning gate, a route with
  \<^verbatim>\<open>nextHopType\<close> \<^verbatim>\<open>VirtualAppliance\<close> and a next hop in \<^verbatim>\<open>addresses.peer\<close> is left unchanged
  if and only if its \<^verbatim>\<open>addressPrefix\<close> is some element of \<^verbatim>\<open>addresses.peer\<close> (not
  necessarily the next hop) followed by \<^verbatim>\<open>/32\<close>; otherwise its next hop becomes the
  element of \<^verbatim>\<open>addresses.me\<close> at the index of the old next hop in \<^verbatim>\<open>addresses.peer\<close>. The
  table, with its routes so rewritten, is handed to \<^verbatim>\<open>safe_arm_put\<close> once when a route
  was rewritten, and not at all otherwise.
\<close>

theorem update_route_table_rewrites:
  assumes "getitem route_table ''properties'' = Inr props"
    and "get_default props ''routes'' (JArr []) = Inr (JArr routes)"
    and "\<forall>r\<in>set routes. route_ok r" and "length me = length peer"
    and "update_route_table az me peer rid route_table w = (res, w1)"
  shows "new_puts w w1 =
           (if list_ex (should_rewrite peer) routes
            then [(rid,
                   setitem route_table ''properties''
                     (setitem props ''routes''
                        (JArr (map (\<lambda>r. if should_rewrite peer r then rewritten me peer r else r)
                                 routes))),
                   ''route table update'')]
            else [])"
  using update_route_table_puts [OF rewrite_table_ok [OF assms(1-4)] assms(5)]
  by simp

text \<open>Witness for C7: the default route is rewritten, the two routes to the peer's own
  addresses are left alone, and the table is written once.\<close>

theorem update_route_table_rewrites_witness:
  "new_puts world0
     (snd (update_route_table accepting_cloud me2 peer2 (JStr ''/rt1'') route_table2 world0))
   = [(JStr ''/rt1'',
       JObj [(''id'', JStr ''/rt1''),
             (''properties'',
                JObj [(''provisioningState'', JStr ''Succeeded''),
                      (''routes'',
                         JArr [mk_route ''default'' ''0.0.0.0/0'' ''10.0.1.4'',
                               mk_route ''peer-eth0'' ''10.0.1.5/32'' ''10.0.1.5'',
                               cross_route])])],
       ''route table update'')]"
proof -
  let ?routes = "[mk_route ''default'' ''0.0.0.0/0'' ''10.0.1.5'',
                  mk_route ''peer-eth0'' ''10.0.1.5/32'' ''10.0.1.5'', cross_route]"
  let ?props = "JObj [(''provisioningState'', JStr ''Succeeded''), (''routes'', JArr ?routes)]"
  let ?run = "update_route_table accepting_cloud me2 peer2 (JStr ''/rt1'') route_table2 world0"
  have a: "getitem route_table2 ''properties'' = Inr ?props"
    by (simp add: route_table2_def)
  have b: "get_default ?props ''routes'' (JArr []) = Inr (JArr ?routes)" by simp
  have c: "\<forall>r\<in>set ?routes. route_ok r"
    by (simp add: route_ok_def mk_route_def cross_route_def)
  have d: "length me2 = length peer2" by (simp add: me2_def peer2_def)
  have e: "?run = (fst ?run, snd ?run)" by simp
  have v: "(if list_ex (should_rewrite peer2) ?routes
            then [(JStr ''/rt1'',
                   setitem route_table2 ''properties''
                     (setitem ?props ''routes''
                        (JArr (map (\<lambda>r. if should_rewrite peer2 r then rewritten me2 peer2 r else r)
                                 ?routes))),
                   ''route table update'')]
            else [])
     = [(JStr ''/rt1'',
       JObj [(''id'', JStr ''/rt1''),
             (''properties'',
                JObj [(''provisioningState'', JStr ''Succeeded''),
                      (''routes'',
                         JArr [mk_route ''default'' ''0.0.0.0/0'' ''10.0.1.4'',
                               mk_route ''peer-eth0'' ''10.0.1.5/32'' ''10.0.1.5'',
                               cross_route])])],
       ''route table update'')]"
    by code_simp
  from update_route_table_rewrites [OF a b c d e] show ?thesis
    unfolding v .
qed

text \<open>
  C7 as stated fails: the next hop of the route is the peer address \<^verbatim>\<open>10.0.1.5\<close>, its prefix
  \<^verbatim>\<open>10.0.2.5/32\<close> is not that address followed by \<^verbatim>\<open>/32\<close>, and yet the route is left
  unchanged, because \<^verbatim>\<open>10.0.2.5\<close> is another peer address.
\<close>

theorem rewrite_route_other_peer_counterexample:
  "rewrite_route me2 peer2 cross_route = Inr (cross_route, False)
   \<and> route_field cross_route ''nextHopType'' = JStr ''VirtualAppliance''
   \<and> route_field cross_route ''nextHopIpAddress'' = JStr ''10.0.1.5''
   \<and> JStr ''10.0.1.5'' \<in> set peer2
   \<and> route_prefix cross_route \<noteq> ''10.0.1.5'' @ ''/32''"
  by code_simp

section \<open>Properties of the VIP reconciler\<close>

text \<open>
  C2 fails on the code. Two VIPs are configured for \<^verbatim>\<open>eth0\<close>; the first one is missing
  from my interface, the second one is there. The pass appends the first VIP to the
  object in memory, sends nothing, and returns normally, so the interface counts as done
  and \<^verbatim>\<open>set_cluster_ips\<close> reports that no work remains: the PUT sits inside the branch of
  a missing VIP and is made only when the last VIP of the list is the missing one.
\<close>

theorem cluster_interface_skips_put:
  "get_cluster_ip_index my_nic_second_only (JStr ''cluster-vip'') = Inr (- 1)
   \<and> fst (cluster_interface accepting_cloud conf_two_vips [0] [1] ''eth0'' two_vips
            (world_of my_nic_second_only peer_nic_clean)) = Inr ()
   \<and> puts (snd (cluster_interface accepting_cloud conf_two_vips [0] [1] ''eth0'' two_vips
            (world_of my_nic_second_only peer_nic_clean))) = []
   \<and> exchanges (snd (cluster_interface accepting_cloud conf_two_vips [0] [1] ''eth0'' two_vips
            (world_of my_nic_second_only peer_nic_clean))) = []
   \<and> fst (set_cluster_ips accepting_cloud conf_two_vips [0] [1]
            (world_of my_nic_second_only peer_nic_clean)) = Inr False"
  by code_simp


lemma bind_simps [simp]:
  "bind (Inr x) f = f x"
  "bind (Inl e) f = Inl e"
  by (simp_all add: bind_def)

lemma bind_eq_Inr: "bind m f = Inr y \<longleftrightarrow> (\<exists>x. m = Inr x \<and> f x = Inr y)"
  by (cases m) simp_all

text \<open>An index below zero means that no configuration bears the name.\<close>

lemma first_index_neg:
  "first_index ipcs name i = Inr k \<Longrightarrow> k < 0 \<Longrightarrow> \<forall>ipc\<in>set ipcs. \<not> name_matches ipc name"
proof (induction ipcs arbitrary: i)
  case Nil
  show ?case by simp
next
  case (Cons ipc rest)
  from Cons.prems(1) obtain n a b where n: "getitem ipc NAME = Inr n"
    and a: "py_lower n = Inr a" and b: "py_lower name = Inr b"
    and r: "(if a = b then Inr (int i) else first_index rest name (Suc i)) = Inr k"
    by (auto simp: bind_eq_Inr)
  from r Cons.prems(2) have ne: "a \<noteq> b" and rest: "first_index rest name (Suc i) = Inr k"
    by (auto split: if_splits)
  from n a b ne have "\<not> name_matches ipc name" by (simp add: name_matches_def)
  with Cons.IH [OF rest Cons.prems(2)] show ?case by simp
qed

lemma get_cluster_ip_index_neg:
  assumes "get_cluster_ip_index nic name = Inr k" and "k < 0"
  shows "\<forall>ipc\<in>set (nic_configs nic). \<not> name_matches ipc name"
proof -
  from assms(1) obtain props cfgs ipcs where p: "getitem nic ''properties'' = Inr props"
    and c: "getitem props ''ipConfigurations'' = Inr cfgs" and i: "py_iter cfgs = Inr ipcs"
    and f: "first_index ipcs name 0 = Inr k"
    by (auto simp: get_cluster_ip_index_def bind_eq_Inr)
  show ?thesis
  proof (cases cfgs)
    case (JArr xs)
    with p c i first_index_neg [OF f assms(2)] show ?thesis
      by (simp add: nic_configs_def)
  qed (use p c in \<open>simp_all add: nic_configs_def\<close>)
qed

lemma remove_loop_flag_true:
  "remove_attached_vips_loop names nic True idx = Inr (n1, f, i1) \<Longrightarrow> f"
proof (induction names arbitrary: nic idx)
  case Nil
  then show ?case by simp
next
  case (Cons name names)
  from Cons.prems obtain i where
    r: "(if i \<ge> 0 then bind (pop_ipconfig nic (nat i))
              (\<lambda>nic1. remove_attached_vips_loop names nic1 True i)
         else remove_attached_vips_loop names nic True i) = Inr (n1, f, i1)"
    by (auto simp: bind_eq_Inr)
  show ?case
  proof (cases "i \<ge> 0")
    case True
    with r obtain nic1 where "remove_attached_vips_loop names nic1 True i = Inr (n1, f, i1)"
      by (auto simp: bind_eq_Inr)
    then show ?thesis by (rule Cons.IH)
  next
    case False
    with r have "remove_attached_vips_loop names nic True i = Inr (n1, f, i1)" by simp
    then show ?thesis by (rule Cons.IH)
  qed
qed

lemma remove_loop_no_flag:
  "remove_attached_vips_loop names nic flag idx = Inr (n1, False, i1)
   \<Longrightarrow> \<not> vip_attached names nic"
proof (induction names arbitrary: idx)
  case Nil
  show ?case by (simp add: vip_attached_def)
next
  case (Cons name names)
  from Cons.prems obtain i where g: "get_cluster_ip_index nic name = Inr i" and
    r: "(if i \<ge> 0 then bind (pop_ipconfig nic (nat i))
              (\<lambda>nic1. remove_attached_vips_loop names nic1 True i)
         else remove_attached_vips_loop names nic flag i) = Inr (n1, False, i1)"
    by (auto simp: bind_eq_Inr)
  show ?case
  proof (cases "i \<ge> 0")
    case True
    with r obtain nic1 where "remove_attached_vips_loop names nic1 True i = Inr (n1, False, i1)"
      by (auto simp: bind_eq_Inr)
    from remove_loop_flag_true [OF this] show ?thesis by simp
  next
    case False
    with r have l: "remove_attached_vips_loop names nic flag i = Inr (n1, False, i1)" by simp
    from False have "i < 0" by simp
    from get_cluster_ip_index_neg [OF g this] Cons.IH [OF l] show ?thesis
      by (simp add: vip_attached_def list_ex_iff)
  qed
qed

lemma remove_attached_vips_flag:
  "remove_attached_vips names nic cni = Inr (n1, f, i1) \<Longrightarrow> vip_attached names nic \<Longrightarrow> f"
  using remove_loop_no_flag [of names nic False "- 1" n1 i1]
  by (cases f) (simp_all add: remove_attached_vips_def)

text \<open>The shape of a well-formed interface, and what \<open>with_configs\<close> keeps.\<close>

lemma nic_okE:
  assumes "nic_ok nic"
  obtains fs ps rid where "nic = JObj fs" and "map_of fs ''id'' = Some rid"
    and "map_of fs ''properties'' = Some (JObj ps)"
    and "map_of ps ''ipConfigurations'' = Some (JArr (nic_configs nic))"
    and "list_all ipc_ok (nic_configs nic)"
proof -
  from assms obtain fs where fs: "nic = JObj fs"
    by (cases nic) (simp_all add: nic_ok_def)
  from assms fs obtain rid where rid: "map_of fs ''id'' = Some rid"
    by (auto simp: nic_ok_def split: option.splits)
  from assms fs obtain props where props: "map_of fs ''properties'' = Some props"
    by (auto simp: nic_ok_def split: option.splits)
  from assms fs props obtain ps where ps: "props = JObj ps"
    by (cases props) (simp_all add: nic_ok_def)
  from assms fs props ps obtain xs where xs: "map_of ps ''ipConfigurations'' = Some (JArr xs)"
    and ok: "list_all ipc_ok xs"
    by (auto simp: nic_ok_def split: option.splits json.splits)
  from fs props ps xs have "nic_configs nic = xs" by (simp add: nic_configs_def)
  with fs rid props ps xs ok that show thesis by simp
qed

lemma with_configs_ok:
  assumes "nic_ok nic" and "list_all ipc_ok cs"
  shows "nic_ok (with_configs nic cs)" and "nic_configs (with_configs nic cs) = cs"
    and "getitem (with_configs nic cs) ''id'' = getitem nic ''id''"
    and "getitem (with_configs nic cs) ''name'' = getitem nic ''name''"
    and "provisioning_state (with_configs nic cs) = provisioning_state nic"
proof -
  from assms(1) obtain fs ps rid where n: "nic = JObj fs" "map_of fs ''id'' = Some rid"
    "map_of fs ''properties'' = Some (JObj ps)" by (rule nic_okE)
  then have w: "with_configs nic cs =
      JObj (AList.update ''properties''
              (JObj (AList.update ''ipConfigurations'' (JArr cs) ps)) fs)"
    by (simp add: with_configs_def)
  show "nic_ok (with_configs nic cs)" unfolding w using n assms(2)
    by (simp add: nic_ok_def update_conv')
  show "nic_configs (with_configs nic cs) = cs" unfolding w
    by (simp add: nic_configs_def update_conv')
  show "getitem (with_configs nic cs) ''id'' = getitem nic ''id''" unfolding w using n
    by (simp add: update_conv')
  show "getitem (with_configs nic cs) ''name'' = getitem nic ''name''" unfolding w using n
    by (simp add: update_conv')
  show "provisioning_state (with_configs nic cs) = provisioning_state nic" unfolding w using n
    by (simp add: provisioning_state_def update_conv')
qed

lemma match_index_less:
  "list_ex (\<lambda>ipc. name_matches ipc name) ipcs \<Longrightarrow> match_index name ipcs < length ipcs"
  unfolding match_index_def list_ex_iff
  by (induction ipcs) auto

lemma first_index_ok:
  assumes "list_all ipc_ok ipcs" and "is_str name"
  shows "first_index ipcs name i =
           Inr (if list_ex (\<lambda>ipc. name_matches ipc name) ipcs
                then int (i + match_index name ipcs) else - 1)"
  using assms(1)
proof (induction ipcs arbitrary: i)
  case Nil
  show ?case by simp
next
  case (Cons ipc rest)
  from assms(2) obtain n where n: "name = JStr n" by (cases name) simp_all
  from Cons.prems have r: "list_all ipc_ok rest" and i: "ipc_ok ipc" by simp_all
  from i obtain v where v: "getitem ipc NAME = Inr v" "is_str v"
    by (cases "getitem ipc NAME") (simp_all add: ipc_ok_def)
  then obtain s where s: "getitem ipc NAME = Inr (JStr s)" by (cases v) simp_all
  have m: "name_matches ipc name \<longleftrightarrow> lower s = lower n"
    using s n by (simp add: name_matches_def)
  show ?case
    using s n m Cons.IH [OF r, of "Suc i"]
    by (simp add: match_index_def)
qed

lemma get_cluster_ip_index_ok:
  assumes "nic_ok nic" and "is_str name"
  shows "get_cluster_ip_index nic name =
           Inr (if list_ex (\<lambda>ipc. name_matches ipc name) (nic_configs nic)
                then int (match_index name (nic_configs nic)) else - 1)"
proof -
  from assms(1) obtain fs ps rid where n: "nic = JObj fs"
    "map_of fs ''properties'' = Some (JObj ps)"
    "map_of ps ''ipConfigurations'' = Some (JArr (nic_configs nic))"
    "list_all ipc_ok (nic_configs nic)" by (rule nic_okE)
  from n(1-3) first_index_ok [OF n(4) assms(2), of 0] show ?thesis
    by (simp add: get_cluster_ip_index_def)
qed

lemma pop_ipconfig_ok:
  assumes "nic_ok nic" and "i < length (nic_configs nic)"
  shows "pop_ipconfig nic i =
           Inr (with_configs nic (take i (nic_configs nic) @ drop (Suc i) (nic_configs nic)))"
proof -
  from assms(1) obtain fs ps rid where n: "nic = JObj fs"
    "map_of fs ''properties'' = Some (JObj ps)"
    "map_of ps ''ipConfigurations'' = Some (JArr (nic_configs nic))" by (rule nic_okE)
  with assms(2) show ?thesis
    by (simp add: pop_ipconfig_def with_configs_def)
qed

lemma remove_first_ok:
  "list_all ipc_ok cs \<Longrightarrow> list_all ipc_ok (remove_first name cs)"
  unfolding remove_first_def list_all_iff
  by (auto dest: in_set_takeD in_set_dropD)

lemma remove_first_none:
  "\<not> list_ex (\<lambda>ipc. name_matches ipc name) cs \<Longrightarrow> remove_first name cs = cs"
proof -
  assume "\<not> list_ex (\<lambda>ipc. name_matches ipc name) cs"
  then have "\<forall>ipc\<in>set cs. \<not> name_matches ipc name"
    by (simp add: list_ex_iff)
  then have t: "takeWhile (\<lambda>ipc. \<not> name_matches ipc name) cs = cs"
    by (rule takeWhile_eq_all_conv [THEN iffD2])
  show ?thesis unfolding remove_first_def match_index_def t by simp
qed

text \<open>On a well-formed interface the cleanup loop succeeds; it takes out, name after
  name, the first configuration that bears the name.\<close>

lemma remove_loop_ok:
  assumes "\<forall>n\<in>set names. is_str n"
  shows "nic_ok nic \<Longrightarrow>
         \<exists>n1 f i1. remove_attached_vips_loop names nic flag idx = Inr (n1, f, i1)
            \<and> nic_ok n1 \<and> nic_configs n1 = fold remove_first names (nic_configs nic)
            \<and> getitem n1 ''id'' = getitem nic ''id''"
  using assms
proof (induction names arbitrary: nic flag idx)
  case Nil
  then show ?case by simp
next
  case (Cons name names)
  then have s: "is_str name" and ss: "\<forall>n\<in>set names. is_str n" by simp_all
  from Cons.prems(1) obtain fs ps rid where
    ok: "list_all ipc_ok (nic_configs nic)" by (rule nic_okE)
  note g = get_cluster_ip_index_ok [OF Cons.prems(1) s]
  show ?case
  proof (cases "list_ex (\<lambda>ipc. name_matches ipc name) (nic_configs nic)")
    case True
    let ?cs = "remove_first name (nic_configs nic)"
    let ?n = "with_configs nic ?cs"
    from match_index_less [OF True]
    have p: "pop_ipconfig nic (match_index name (nic_configs nic)) = Inr ?n"
      by (simp add: pop_ipconfig_ok [OF Cons.prems(1)] remove_first_def)
    note w = with_configs_ok [OF Cons.prems(1) remove_first_ok [OF ok, of name]]
    from Cons.IH [OF w(1) ss, of True "int (match_index name (nic_configs nic))"]
    obtain n1 f i1 where
      "remove_attached_vips_loop names ?n True (int (match_index name (nic_configs nic)))
         = Inr (n1, f, i1)"
      "nic_ok n1" "nic_configs n1 = fold remove_first names (nic_configs ?n)"
      "getitem n1 ''id'' = getitem ?n ''id''"
      by blast
    with g True p w show ?thesis by simp
  next
    case False
    from Cons.IH [OF Cons.prems(1) ss, of flag "- 1"]
    obtain n1 f i1 where
      "remove_attached_vips_loop names nic flag (- 1) = Inr (n1, f, i1)"
      "nic_ok n1" "nic_configs n1 = fold remove_first names (nic_configs nic)"
      "getitem n1 ''id'' = getitem nic ''id''"
      by blast
    with g False remove_first_none [OF False] show ?thesis by simp
  qed
qed





text \<open>The provisioning gate writes at most a reset, and nothing when the resource is
  ready.\<close>

lemma is_resource_ready_succeeded:
  "provisioning_state r = Inr (JStr ''Succeeded'') \<Longrightarrow> is_resource_ready az r w = (Inr True, w)"
  by (simp add: is_resource_ready_def seq_def pure_def ret_def)

lemma is_resource_ready_frame:
  assumes "is_resource_ready az r w = (res, w1)"
  shows "heap w1 = heap w" and "status_file w1 = status_file w"
    and "\<forall>x\<in>set (new_puts w w1). snd (snd x) = ''resource reset''"
    and "res = Inr True \<longrightarrow> w1 = w"
proof -
  have "heap w1 = heap w \<and> status_file w1 = status_file w
        \<and> (\<forall>x\<in>set (new_puts w w1). snd (snd x) = ''resource reset'')
        \<and> (res = Inr True \<longrightarrow> w1 = w)"
  proof (cases "provisioning_state r")
    case (Inl e)
    with assms show ?thesis
      by (simp add: is_resource_ready_def seq_def pure_def new_puts_def)
  next
    case (Inr state)
    show ?thesis
    proof (cases "state = JStr ''Succeeded''")
      case True
      with Inr assms show ?thesis
        by (simp add: is_resource_ready_def seq_def pure_def ret_def new_puts_def)
    next
      case ns: False
      show ?thesis
      proof (cases "getitem r ''id''")
        case (Inl e)
        with Inr ns assms show ?thesis
          by (simp add: is_resource_ready_def seq_def pure_def new_puts_def)
      next
        case rid: (Inr rid)
        let ?w = "log INFO ''state   : %s'' (log INFO ''resource: %s'' w)"
        show ?thesis
        proof (cases "state = JStr ''Failed''")
          case False
          with Inr ns rid assms show ?thesis
            by (auto simp: is_resource_ready_def seq_def pure_def ret_def effect_def new_puts_def)
        next
          case True
          let ?w2 = "log INFO ''trying to reset object:'' ?w"
          obtain r2 w2 where s: "safe_arm_put az rid r ''resource reset'' ?w2 = (r2, w2)"
            by (cases "safe_arm_put az rid r ''resource reset'' ?w2")
          note f = safe_arm_put_frame [OF s]
          from Inr ns rid True assms s
          have "(res, w1) = (case r2 of Inl e \<Rightarrow> (Inl e, w2)
                              | Inr v \<Rightarrow> (Inr False, log INFO ''Reset initiated:'' w2))"
            by (simp add: is_resource_ready_def seq_def pure_def ret_def effect_def
                     split: sum.splits)
          with f show ?thesis
            by (cases r2) (auto simp: new_puts_def)
        qed
      qed
    qed
  qed
  then show "heap w1 = heap w" and "status_file w1 = status_file w"
    and "\<forall>x\<in>set (new_puts w w1). snd (snd x) = ''resource reset''"
    and "res = Inr True \<longrightarrow> w1 = w"
    by simp_all
qed

text \<open>The peer cleanup pass, when a configured VIP is attached to the peer interface:
  it never returns normally, and all it asks for is the removal.\<close>

lemma peer_cleanup_run:
  "peer_cleanup az cni p names w =
     (case remove_attached_vips names (heap w p) cni of
        Inl e \<Rightarrow> (Inl e, w)
      | Inr removed \<Rightarrow>
          if fst (snd removed)
          then (case getitem (fst removed) ''id'' of
                  Inl e \<Rightarrow>
                    (Inl e, update_cluster_status_file IN_PROGRESS
                              (w\<lparr>heap := (heap w)(p := fst removed)\<rparr>))
                | Inr rid \<Rightarrow>
                    (case safe_arm_put az rid (fst removed) (''peer '' @ cni @ '' VIP removal'')
                            (update_cluster_status_file IN_PROGRESS
                               (w\<lparr>heap := (heap w)(p := fst removed)\<rparr>)) of
                       (Inl e, w2) \<Rightarrow> (Inl e, w2)
                     | (Inr r, w2) \<Rightarrow> (Inl StopIteration, w2)))
          else (Inr (), w\<lparr>heap := (heap w)(p := fst removed)\<rparr>))"
  by (simp add: peer_cleanup_def seq_def pure_def effect_def ret_def raise_def
        update_cluster_status_file_def
      split: sum.splits prod.splits)

lemma peer_cleanup_attached:
  assumes "vip_attached names (heap w p)" and "peer_cleanup az cni p names w = (res, w1)"
  shows "(\<exists>e. res = Inl e)
       \<and> (\<forall>x\<in>set (new_puts w w1). snd (snd x) = ''peer '' @ cni @ '' VIP removal'')"
proof (cases "remove_attached_vips names (heap w p) cni")
  case (Inl e)
  with assms(2) show ?thesis
    by (auto simp: peer_cleanup_run new_puts_def)
next
  case (Inr removed)
  obtain n1 f i1 where r: "removed = (n1, f, i1)" by (cases removed)
  from remove_attached_vips_flag [OF Inr [unfolded r] assms(1)] have f: f .
  let ?w = "update_cluster_status_file IN_PROGRESS (w\<lparr>heap := (heap w)(p := n1)\<rparr>)"
  have pw: "puts ?w = puts w" by (simp add: update_cluster_status_file_def)
  show ?thesis
  proof (cases "getitem n1 ''id''")
    case (Inl e)
    with Inr r f assms(2) pw show ?thesis
      by (auto simp: peer_cleanup_run new_puts_def)
  next
    case rid: (Inr rid)
    obtain r2 w2 where s: "safe_arm_put az rid n1 (''peer '' @ cni @ '' VIP removal'') ?w = (r2, w2)"
      by (cases "safe_arm_put az rid n1 (''peer '' @ cni @ '' VIP removal'') ?w")
    from Inr r f rid s assms(2) have "w1 = w2" "\<exists>e. res = Inl e"
      by (auto simp: peer_cleanup_run split: sum.splits)
    with safe_arm_put_frame(3) [OF s] pw show ?thesis
      by (simp add: new_puts_def)
  qed
qed

lemma peer_cleanup_ok:
  assumes "nic_ok (heap w p)" and "\<forall>n\<in>set names. is_str n"
    and "vip_attached names (heap w p)" and "peer_cleanup az cni p names w = (res, w1)"
  shows "\<exists>rid n1. new_puts w w1 = [(rid, n1, ''peer '' @ cni @ '' VIP removal'')]
           \<and> getitem (heap w p) ''id'' = Inr rid
           \<and> nic_configs n1 = fold remove_first names (nic_configs (heap w p))
           \<and> status_file w1 = status_file w @ [IN_PROGRESS]
           \<and> (\<exists>e. res = Inl e)"
proof -
  from remove_loop_ok [OF assms(2,1), of False "- 1"] obtain n1 f i1 where
    rm: "remove_attached_vips names (heap w p) cni = Inr (n1, f, i1)"
    and n1: "nic_ok n1" "nic_configs n1 = fold remove_first names (nic_configs (heap w p))"
      "getitem n1 ''id'' = getitem (heap w p) ''id''"
    by (auto simp: remove_attached_vips_def)
  from remove_attached_vips_flag [OF rm assms(3)] have f: f .
  from n1(1) obtain rid where rid: "getitem n1 ''id'' = Inr rid"
    by (rule nic_okE) simp
  let ?w = "update_cluster_status_file IN_PROGRESS (w\<lparr>heap := (heap w)(p := n1)\<rparr>)"
  have pw: "puts ?w = puts w" "status_file ?w = status_file w @ [IN_PROGRESS]"
    by (simp_all add: update_cluster_status_file_def)
  obtain r2 w2 where s: "safe_arm_put az rid n1 (''peer '' @ cni @ '' VIP removal'') ?w = (r2, w2)"
    by (cases "safe_arm_put az rid n1 (''peer '' @ cni @ '' VIP removal'') ?w")
  from rm f rid s assms(4) have "w1 = w2" "\<exists>e. res = Inl e"
    by (auto simp: peer_cleanup_run split: sum.splits)
  with safe_arm_put_frame(2,3) [OF s] pw n1 rid show ?thesis
    by (simp add: new_puts_def)
qed

lemma getitem_all_ok:
  "list_all ipc_ok ipcs \<Longrightarrow> \<exists>ns. getitem_all ipcs NAME = Inr ns"
proof (induction ipcs)
  case Nil
  show ?case by simp
next
  case (Cons ipc ipcs)
  then obtain ns where ns: "getitem_all ipcs NAME = Inr ns" by auto
  from Cons.prems have "ipc_ok ipc" by simp
  then obtain v where "getitem ipc NAME = Inr v"
    by (cases "getitem ipc NAME") (simp_all add: ipc_ok_def)
  with ns show ?case by simp
qed

lemma ip_names_ok: "nic_ok nic \<Longrightarrow> \<exists>ns. ip_names nic = Inr ns"
proof -
  assume "nic_ok nic"
  then obtain fs ps rid where n: "nic = JObj fs"
    "map_of fs ''properties'' = Some (JObj ps)"
    "map_of ps ''ipConfigurations'' = Some (JArr (nic_configs nic))"
    "list_all ipc_ok (nic_configs nic)" by (rule nic_okE)
  from getitem_all_ok [OF n(4)] n(1-3) show ?thesis
    by (simp add: ip_names_def NAME_def)
qed

lemma cluster_interface_run:
  assumes "vip_names_of vips = Inr vip_names"
    and "get_nic_by_suffix (heap w) peer_nics cni = Inr p"
  shows "cluster_interface az conf my_nics peer_nics cni vips w =
     (case is_resource_ready az (heap w p) w of
        (Inl e, w0) \<Rightarrow> (Inl e, w0)
      | (Inr ready, w0) \<Rightarrow>
          if \<not> ready then (Inl StopIteration, w0)
          else
            (case ip_names (heap w0 p) of
               Inl e \<Rightarrow> (Inl e, w0)
             | Inr peer_ip_names \<Rightarrow>
                 (case get_nic_by_suffix (heap w0) my_nics cni of
                    Inl e \<Rightarrow> (Inl e, w0)
                  | Inr m \<Rightarrow>
                      (case (if truthy (heap w0 m) then ip_names (heap w0 m) else Inr []) of
                         Inl e \<Rightarrow> (Inl e, w0)
                       | Inr my_ip_names \<Rightarrow>
                           (case peer_cleanup az cni p vip_names w0 of
                              (Inl e, w2) \<Rightarrow> (Inl e, w2)
                            | (Inr u, w2) \<Rightarrow> self_addition az conf my_nics cni vips w2)))))"
  using assms
  by (simp add: cluster_interface_def seq_def pure_def raise_def
      split: sum.splits prod.splits)

lemma cluster_interface_removal:
  assumes "vip_names_of vips = Inr vip_names"
    and "get_nic_by_suffix (heap w) peer_nics cni = Inr p"
    and "provisioning_state (heap w p) = Inr (JStr ''Succeeded'')"
    and "nic_ok (heap w p)" and "\<forall>n\<in>set vip_names. is_str n"
    and "get_nic_by_suffix (heap w) my_nics cni = Inr m" and "nic_ok (heap w m)"
    and "vip_attached vip_names (heap w p)"
    and "cluster_interface az conf my_nics peer_nics cni vips w = (res, w1)"
  shows "\<exists>rid n1. new_puts w w1 = [(rid, n1, ''peer '' @ cni @ '' VIP removal'')]
           \<and> getitem (heap w p) ''id'' = Inr rid
           \<and> nic_configs n1 = fold remove_first vip_names (nic_configs (heap w p))
           \<and> status_file w1 = status_file w @ [IN_PROGRESS]
           \<and> (\<exists>e. res = Inl e)"
proof -
  from ip_names_ok [OF assms(4)] obtain pn where pn: "ip_names (heap w p) = Inr pn" by blast
  from ip_names_ok [OF assms(7)] obtain mn where mn: "ip_names (heap w m) = Inr mn" by blast
  obtain rc wc where c: "peer_cleanup az cni p vip_names w = (rc, wc)"
    by (cases "peer_cleanup az cni p vip_names w")
  from peer_cleanup_ok [OF assms(4,5,8) c] obtain rid n1 where
    k: "new_puts w wc = [(rid, n1, ''peer '' @ cni @ '' VIP removal'')]"
      "getitem (heap w p) ''id'' = Inr rid"
      "nic_configs n1 = fold remove_first vip_names (nic_configs (heap w p))"
      "status_file wc = status_file w @ [IN_PROGRESS]" "\<exists>e. rc = Inl e"
    by blast
  from k(5) obtain e where e: "rc = Inl e" by blast
  from assms(9) have "res = Inl e \<and> w1 = wc"
    unfolding cluster_interface_run [OF assms(1,2)]
      is_resource_ready_succeeded [OF assms(3)]
    using pn mn assms(6) c e
    by (simp split: if_splits)
  with k show ?thesis by blast
qed

text \<open>
  C1, as amended. When a configured VIP name is present on the peer interface, the tick
  performs no self-add PUT for that interface; and when, moreover, the peer interface
  is ready (\<^verbatim>\<open>provisioningState\<close> is \<^verbatim>\<open>Succeeded\<close>) and both interfaces are found and
  well-formed, the tick asks for exactly one write: the removal PUT of the peer
  interface, after recording \<^verbatim>\<open>IN_PROGRESS\<close>. So a self-add PUT occurs only in a tick in
  which no configured VIP name was found on the peer interface.
\<close>

theorem cluster_interface_peer_first:
  assumes "vip_names_of vips = Inr vip_names"
    and "get_nic_by_suffix (heap w) peer_nics cni = Inr p"
    and "vip_attached vip_names (heap w p)"
    and "cluster_interface az conf my_nics peer_nics cni vips w = (res, w1)"
  shows "(\<forall>x\<in>set (new_puts w w1). snd (snd x) \<noteq> ''my '' @ cni @ '' VIP addition'')
       \<and> (provisioning_state (heap w p) = Inr (JStr ''Succeeded'') \<and> nic_ok (heap w p)
            \<and> (\<forall>n\<in>set vip_names. is_str n)
            \<and> get_nic_by_suffix (heap w) my_nics cni = Inr m \<and> nic_ok (heap w m)
          \<longrightarrow> (\<exists>rid body. getitem (heap w p) ''id'' = Inr rid
                  \<and> new_puts w w1 = [(rid, body, ''peer '' @ cni @ '' VIP removal'')])
              \<and> status_file w1 = status_file w @ [IN_PROGRESS])"
proof
  obtain r0 w0 where r: "is_resource_ready az (heap w p) w = (r0, w0)"
    by (cases "is_resource_ready az (heap w p) w")
  note f = is_resource_ready_frame [OF r]
  have reset: "\<forall>x\<in>set (new_puts w w0). snd (snd x) \<noteq> ''my '' @ cni @ '' VIP addition''"
    using f(3) by auto
  show "\<forall>x\<in>set (new_puts w w1). snd (snd x) \<noteq> ''my '' @ cni @ '' VIP addition''"
  proof (cases "r0 = Inr True")
    case False
    with assms(4) r have "w1 = w0"
      unfolding cluster_interface_run [OF assms(1,2)]
      by (cases r0) (auto split: if_splits)
    with reset show ?thesis by simp
  next
    case True
    with f(4) have w0: "w0 = w" by simp
    obtain rc wc where c: "peer_cleanup az cni p vip_names w = (rc, wc)"
      by (cases "peer_cleanup az cni p vip_names w")
    from peer_cleanup_attached [OF assms(3) c] obtain e where e: "rc = Inl e"
      and pc: "\<forall>x\<in>set (new_puts w wc). snd (snd x) = ''peer '' @ cni @ '' VIP removal''"
      by blast
    from assms(4) r True w0 c e have "w1 = w \<or> w1 = wc"
      unfolding cluster_interface_run [OF assms(1,2)]
      by (auto split: sum.splits if_splits)
    then show ?thesis
    proof
      assume "w1 = w"
      then show ?thesis by (simp add: new_puts_def)
    next
      assume "w1 = wc"
      with pc show ?thesis by auto
    qed
  qed
  show "provisioning_state (heap w p) = Inr (JStr ''Succeeded'') \<and> nic_ok (heap w p)
            \<and> (\<forall>n\<in>set vip_names. is_str n)
            \<and> get_nic_by_suffix (heap w) my_nics cni = Inr m \<and> nic_ok (heap w m)
          \<longrightarrow> (\<exists>rid body. getitem (heap w p) ''id'' = Inr rid
                  \<and> new_puts w w1 = [(rid, body, ''peer '' @ cni @ '' VIP removal'')])
              \<and> status_file w1 = status_file w @ [IN_PROGRESS]"
  proof
    assume h: "provisioning_state (heap w p) = Inr (JStr ''Succeeded'') \<and> nic_ok (heap w p)
            \<and> (\<forall>n\<in>set vip_names. is_str n)
            \<and> get_nic_by_suffix (heap w) my_nics cni = Inr m \<and> nic_ok (heap w m)"
    from cluster_interface_removal [OF assms(1,2) _ _ _ _ _ assms(3,4), of m] h
    show "(\<exists>rid body. getitem (heap w p) ''id'' = Inr rid
                  \<and> new_puts w w1 = [(rid, body, ''peer '' @ cni @ '' VIP removal'')])
              \<and> status_file w1 = status_file w @ [IN_PROGRESS]"
      by blast
  qed
qed

text \<open>Witness for C1: the peer interface is ready and holds the VIP under the name
  \<^verbatim>\<open>Cluster-VIP\<close>; the configuration names it \<^verbatim>\<open>cluster-vip\<close>.\<close>

theorem cluster_interface_peer_first_witness:
  "list_all (\<lambda>x. snd (snd x) \<noteq> ''my '' @ ''eth0'' @ '' VIP addition'')
     (new_puts (world_of my_nic_plain peer_nic_holding)
        (snd (cluster_interface accepting_cloud conf1 [0] [1] ''eth0'' one_vip
                (world_of my_nic_plain peer_nic_holding))))
   \<and> (\<exists>rid body. getitem (heap (world_of my_nic_plain peer_nic_holding) 1) ''id'' = Inr rid
         \<and> new_puts (world_of my_nic_plain peer_nic_holding)
             (snd (cluster_interface accepting_cloud conf1 [0] [1] ''eth0'' one_vip
                     (world_of my_nic_plain peer_nic_holding)))
           = [(rid, body, ''peer '' @ ''eth0'' @ '' VIP removal'')])
   \<and> status_file (snd (cluster_interface accepting_cloud conf1 [0] [1] ''eth0'' one_vip
                          (world_of my_nic_plain peer_nic_holding)))
       = status_file (world_of my_nic_plain peer_nic_holding) @ [IN_PROGRESS]"
proof -
  let ?w = "world_of my_nic_plain peer_nic_holding"
  let ?run = "cluster_interface accepting_cloud conf1 [0] [1] ''eth0'' one_vip ?w"
  have a: "vip_names_of one_vip = Inr [JStr ''cluster-vip'']" by code_simp
  have b: "get_nic_by_suffix (heap ?w) [1] ''eth0'' = Inr 1" by code_simp
  have c: "vip_attached [JStr ''cluster-vip''] (heap ?w 1)" by code_simp
  have d: "?run = (fst ?run, snd ?run)" by simp
  have e: "provisioning_state (heap ?w 1) = Inr (JStr ''Succeeded'')" by code_simp
  have f: "nic_ok (heap ?w 1)" by code_simp
  have g: "\<forall>n\<in>set [JStr ''cluster-vip'']. is_str n" by simp
  have h: "get_nic_by_suffix (heap ?w) [0] ''eth0'' = Inr 0" by code_simp
  have i: "nic_ok (heap ?w 0)" by code_simp
  from cluster_interface_peer_first [OF a b c d, of 0] e f g h i show ?thesis
    unfolding list_all_iff by blast
qed

text \<open>
  C1 as stated fails: the VIP is on the peer interface, but the interface is being
  updated, so the provisioning gate ends the pass before the cleanup and the tick issues
  no removal PUT (and nothing else).
\<close>

theorem cluster_interface_not_ready_counterexample:
  "vip_attached [JStr ''cluster-vip''] peer_nic_updating
   \<and> fst (cluster_interface accepting_cloud conf1 [0] [1] ''eth0'' one_vip
            (world_of my_nic_plain peer_nic_updating)) = Inl StopIteration
   \<and> puts (snd (cluster_interface accepting_cloud conf1 [0] [1] ''eth0'' one_vip
            (world_of my_nic_plain peer_nic_updating))) = []
   \<and> exchanges (snd (cluster_interface accepting_cloud conf1 [0] [1] ''eth0'' one_vip
            (world_of my_nic_plain peer_nic_updating))) = []"
  by code_simp




section \<open>Properties of the public-address reconciler\<close>

text \<open>Reading does not write.\<close>

lemma arm_get_puts: "arm_get az u w = (r, w1) \<Longrightarrow> puts w1 = puts w"
  by (auto simp: arm_get_def seq_def ret_def split: sum.splits prod.splits dest: arm_fields(5))

lemma read_non_cp_nat_rules_puts:
  "read_non_cp_nat_rules az conf w = (r, w1) \<Longrightarrow> puts w1 = puts w"
  by (auto simp: read_non_cp_nat_rules_def seq_def ret_def pure_def raise_def
      split: sum.splits prod.splits if_splits json.splits exn.splits dest: arm_get_puts)

lemma get_vm_puts: "get_vm az conf k w = (r, w1) \<Longrightarrow> puts w1 = puts w"
  by (auto simp: get_vm_def seq_def pure_def split: sum.splits prod.splits dest: arm_get_puts)

lemma get_vm_primary_nic_puts: "get_vm_primary_nic az vm w = (r, w1) \<Longrightarrow> puts w1 = puts w"
  by (auto simp: get_vm_primary_nic_def seq_def pure_def split: sum.splits prod.splits
      dest: arm_get_puts)

lemma cluster_public_ip_puts: "cluster_public_ip az conf w = (r, w1) \<Longrightarrow> puts w1 = puts w"
  by (auto simp: cluster_public_ip_def seq_def pure_def
      split: sum.splits prod.splits exn.splits if_splits dest: arm_get_puts)

lemma seq_Inr:
  "seq m f w = (Inr y, w1) \<longleftrightarrow> (\<exists>x w0. m w = (Inr x, w0) \<and> f x w0 = (Inr y, w1))"
  by (auto simp: seq_def split: sum.splits prod.splits)

lemma public_address_inputs_puts:
  assumes "public_address_inputs az conf w = (Inr t, w0)"
  shows "puts w0 = puts w"
proof -
  from assms obtain wa wb wc wd we rules me peer my_nic peer_nic where
    "read_non_cp_nat_rules az conf w = (Inr rules, wa)"
    "get_vm az conf ''hostname'' wa = (Inr me, wb)"
    "get_vm az conf ''peername'' wb = (Inr peer, wc)"
    "get_vm_primary_nic az me wc = (Inr my_nic, wd)"
    "get_vm_primary_nic az peer wd = (Inr peer_nic, we)"
    "\<exists>pip. cluster_public_ip az conf we = (Inr pip, w0)"
    unfolding public_address_inputs_def seq_Inr
    by (auto simp: pure_def ret_def)
  then show ?thesis
    by (auto dest!: read_non_cp_nat_rules_puts get_vm_puts get_vm_primary_nic_puts
          cluster_public_ip_puts)
qed

text \<open>With both primary interfaces ready, \<^verbatim>\<open>set_public_address\<close> is the decision on what
  it read.\<close>

lemma set_public_address_ready:
  assumes "public_address_inputs az conf w = (Inr (rules, my_nic, peer_nic, public_ip), w0)"
    and "ready_nic_ok my_nic" and "ready_nic_ok peer_nic"
  shows "set_public_address az conf w =
           public_address_decision az conf rules my_nic (first_conf_rule_ids my_nic)
             peer_nic (first_conf_rule_ids peer_nic) public_ip w0"
proof -
  from assms(1) obtain names wa wb wc wd we me peer where
    n: "bind (getitem conf ''hostname'') (\<lambda>h. getitem conf ''peername'') = Inr names"
    and s: "read_non_cp_nat_rules az conf w = (Inr rules, wa)"
      "get_vm az conf ''hostname'' wa = (Inr me, wb)"
      "get_vm az conf ''peername'' wb = (Inr peer, wc)"
      "get_vm_primary_nic az me wc = (Inr my_nic, wd)"
      "get_vm_primary_nic az peer wd = (Inr peer_nic, we)"
      "cluster_public_ip az conf we = (Inr public_ip, w0)"
    unfolding public_address_inputs_def seq_Inr
    by (auto simp: pure_def ret_def)
  from assms(2) obtain mr where mr: "bind (first_ip_conf my_nic) nat_rule_ids = Inr mr"
    and rm: "provisioning_state my_nic = Inr (JStr ''Succeeded'')"
    by (auto simp: ready_nic_ok_def split: sum.splits)
  from assms(3) obtain pr where pr: "bind (first_ip_conf peer_nic) nat_rule_ids = Inr pr"
    and rp: "provisioning_state peer_nic = Inr (JStr ''Succeeded'')"
    by (auto simp: ready_nic_ok_def split: sum.splits)
  show ?thesis
    using n s mr pr
    by (simp add: set_public_address_def seq_def pure_def ret_def first_conf_rule_ids_def
          is_resource_ready_succeeded [OF rm] is_resource_ready_succeeded [OF rp])
qed

lemma lower_all_strs:
  "list_all is_str ids \<Longrightarrow> \<exists>xs. lower_all ids = Inr xs"
proof (induction ids)
  case Nil
  show ?case by simp
next
  case (Cons i ids)
  then obtain xs where "lower_all ids = Inr xs" by auto
  moreover from Cons.prems obtain s where "i = JStr s" by (cases i) simp_all
  ultimately show ?case by simp
qed

lemma ready_nic_ok_props:
  assumes "ready_nic_ok nic"
  obtains ps where "bind (first_ip_conf nic) (\<lambda>c. getitem c ''properties'') = Inr (JObj ps)"
    and "first_conf_public_ip nic
           = (case map_of ps ''publicIPAddress'' of Some v \<Rightarrow> v | None \<Rightarrow> JNull)"
proof -
  from assms obtain c ids where c: "first_ip_conf nic = Inr c" and i: "nat_rule_ids c = Inr ids"
    by (auto simp: ready_nic_ok_def bind_eq_Inr split: sum.splits)
  from i obtain props rules where p: "getitem c ''properties'' = Inr props"
    and g: "get_default props ''loadBalancerInboundNatRules'' (JArr []) = Inr rules"
    by (auto simp: nat_rule_ids_def bind_eq_Inr)
  from g obtain ps where ps: "props = JObj ps" by (cases props) simp_all
  from c p ps show thesis
    by (intro that [of ps]) (simp_all add: first_conf_public_ip_def)
qed

text \<open>The decision: it returns \<open>False\<close>, touching nothing, when the test of line 521
  holds, and it never returns \<open>False\<close> otherwise.\<close>

lemma public_address_decision_settled:
  assumes "ready_nic_ok my_nic" and "ready_nic_ok peer_nic" and "list_all is_str rules"
    and "(\<not> truthy public_ip \<or> truthy (first_conf_public_ip my_nic))
         \<and> lower_ids rules \<subseteq> lower_ids (first_conf_rule_ids my_nic)"
  shows "public_address_decision az conf rules my_nic (first_conf_rule_ids my_nic)
           peer_nic (first_conf_rule_ids peer_nic) public_ip w0 = (Inr False, w0)"
proof -
  from assms(1) have "list_all is_str (first_conf_rule_ids my_nic)"
    by (auto simp: ready_nic_ok_def first_conf_rule_ids_def split: sum.splits)
  from lower_all_strs [OF this] obtain mine where
    m: "lower_all (first_conf_rule_ids my_nic) = Inr mine" by blast
  from assms(2) have "list_all is_str (first_conf_rule_ids peer_nic)"
    by (auto simp: ready_nic_ok_def first_conf_rule_ids_def split: sum.splits)
  from lower_all_strs [OF this] obtain peers where
    p: "lower_all (first_conf_rule_ids peer_nic) = Inr peers" by blast
  from lower_all_strs [OF assms(3)] obtain non_cp where r: "lower_all rules = Inr non_cp"
    by blast
  from assms(1) obtain ps where
    ps: "bind (first_ip_conf my_nic) (\<lambda>c. getitem c ''properties'') = Inr (JObj ps)"
    "first_conf_public_ip my_nic
           = (case map_of ps ''publicIPAddress'' of Some v \<Rightarrow> v | None \<Rightarrow> JNull)"
    by (rule ready_nic_ok_props)
  from assms(4) m p r ps show ?thesis
    by (auto simp: public_address_decision_def seq_def pure_def ret_def lower_ids_def)
qed

lemma public_address_decision_unsettled:
  assumes "ready_nic_ok my_nic" and "ready_nic_ok peer_nic" and "list_all is_str rules"
    and "\<not> ((\<not> truthy public_ip \<or> truthy (first_conf_public_ip my_nic))
         \<and> lower_ids rules \<subseteq> lower_ids (first_conf_rule_ids my_nic))"
    and "public_address_decision az conf rules my_nic (first_conf_rule_ids my_nic)
           peer_nic (first_conf_rule_ids peer_nic) public_ip w0 = (res, w1)"
  shows "res \<noteq> Inr False"
proof -
  from assms(1) have "list_all is_str (first_conf_rule_ids my_nic)"
    by (auto simp: ready_nic_ok_def first_conf_rule_ids_def split: sum.splits)
  from lower_all_strs [OF this] obtain mine where
    m: "lower_all (first_conf_rule_ids my_nic) = Inr mine" by blast
  from assms(2) have "list_all is_str (first_conf_rule_ids peer_nic)"
    by (auto simp: ready_nic_ok_def first_conf_rule_ids_def split: sum.splits)
  from lower_all_strs [OF this] obtain peers where
    p: "lower_all (first_conf_rule_ids peer_nic) = Inr peers" by blast
  from lower_all_strs [OF assms(3)] obtain non_cp where r: "lower_all rules = Inr non_cp"
    by blast
  from assms(1) obtain ps where
    ps: "bind (first_ip_conf my_nic) (\<lambda>c. getitem c ''properties'') = Inr (JObj ps)"
    "first_conf_public_ip my_nic
           = (case map_of ps ''publicIPAddress'' of Some v \<Rightarrow> v | None \<Rightarrow> JNull)"
    by (rule ready_nic_ok_props)
  have settled: "\<not> ((\<not> truthy public_ip
                      \<or> truthy (case map_of ps ''publicIPAddress'' of Some v \<Rightarrow> v | None \<Rightarrow> JNull))
                     \<and> set non_cp \<subseteq> set mine)"
    using assms(4) m r ps(2) by (simp add: lower_ids_def)
  define rest where "rest = (\<lambda>w.
         seq (pure (bind (first_ip_conf peer_nic) (\<lambda>c. getitem c ''properties''))) (\<lambda>peer_props.
         seq (pure (bind (get_default peer_props ''publicIPAddress'' JNull) (\<lambda>v.
                      Inr (truthy v \<or> set non_cp \<inter> set peers \<noteq> {})))) (\<lambda>held.
           if held
           then
             seq (pure (bind (py_pop_key peer_props ''publicIPAddress'') (\<lambda>p1.
                        bind (get_default p1 ''loadBalancerInboundNatRules'' (JArr [])) (\<lambda>rules.
                        bind (py_iter rules) (\<lambda>rs.
                        bind (checkpoint_rules rs) (\<lambda>keep.
                        bind (set_first_props peer_nic
                                (setitem p1 ''loadBalancerInboundNatRules'' (JArr keep)))
                          (\<lambda>nic1. bind (getitem nic1 ''id'') (\<lambda>rid. Inr (rid, nic1))))))))) (\<lambda>t.
             seq (safe_arm_put az (fst t) (snd t) ''peer NIC public IP disassociation'') (\<lambda>r.
               ret True))
           else
             seq (pure (bind (if truthy public_ip
                              then bind (public_ip_id conf) (\<lambda>pid.
                                     Inr (setitem (JObj ps) ''publicIPAddress'' (JObj [(''id'', pid)])))
                              else Inr (JObj ps)) (\<lambda>p1.
                        bind (set_first_props my_nic
                                (setitem p1 ''loadBalancerInboundNatRules''
                                   (JArr (map (\<lambda>i. JObj [(''id'', JStr i)])
                                            (remdups (mine @ non_cp))))))
                          (\<lambda>nic1. bind (getitem nic1 ''id'') (\<lambda>rid. Inr (rid, nic1)))))) (\<lambda>t.
             seq (safe_arm_put az (fst t) (snd t) ''my NIC public IP association'') (\<lambda>r.
               ret True)))) w)"
  have run: "public_address_decision az conf rules my_nic (first_conf_rule_ids my_nic)
           peer_nic (first_conf_rule_ids peer_nic) public_ip w0 = rest w0"
    using m p r ps(1) settled
    by (auto simp: public_address_decision_def seq_def pure_def ret_def rest_def)
  have "fst (rest w) \<noteq> Inr False" for w
    unfolding rest_def
    by (auto simp: seq_def pure_def ret_def split: sum.splits prod.splits)
  with assms(5) run show ?thesis by (metis fst_conv)
qed

text \<open>
  C9, as amended. Suppose the reads of \<^verbatim>\<open>set_public_address\<close> succeed (the NAT rules of the
  load balancer whose name does not start with \<^verbatim>\<open>checkpoint-\<close>, both primary interfaces
  and the cluster public address, \<^verbatim>\<open>None\<close> on a 404), both primary interfaces are ready
  (\<^verbatim>\<open>Succeeded\<close>), and the rule identifiers are strings. Then the call returns \<open>False\<close> (no
  work remains) without calling \<^verbatim>\<open>safe_arm_put\<close> exactly when (the cluster public address
  is absent or the first configuration of my interface, \<^verbatim>\<open>ipConfigurations[0]\<close>, already
  carries a \<^verbatim>\<open>publicIPAddress\<close>) and the rules of the load balancer are among the rules of
  that first configuration, identifiers compared in lower case. The \<^verbatim>\<open>primary\<close> flag of a
  configuration plays no part.
\<close>

theorem set_public_address_settled:
  assumes "fst (public_address_inputs az conf w) = Inr (rules, my_nic, peer_nic, public_ip)"
    and "ready_nic_ok my_nic" and "ready_nic_ok peer_nic" and "list_all is_str rules"
  shows "(fst (set_public_address az conf w) = Inr False
          \<and> new_puts w (snd (set_public_address az conf w)) = [])
         \<longleftrightarrow> ((\<not> truthy public_ip \<or> truthy (first_conf_public_ip my_nic))
              \<and> lower_ids rules \<subseteq> lower_ids (first_conf_rule_ids my_nic))"
proof -
  obtain w0 where
    i: "public_address_inputs az conf w = (Inr (rules, my_nic, peer_nic, public_ip), w0)"
    using assms(1) by (cases "public_address_inputs az conf w") simp
  have run: "set_public_address az conf w =
           public_address_decision az conf rules my_nic (first_conf_rule_ids my_nic)
             peer_nic (first_conf_rule_ids peer_nic) public_ip w0"
    using i assms(2,3) by (rule set_public_address_ready)
  have same: "puts w0 = puts w"
    using i by (rule public_address_inputs_puts)
  show ?thesis
  proof (cases "(\<not> truthy public_ip \<or> truthy (first_conf_public_ip my_nic))
              \<and> lower_ids rules \<subseteq> lower_ids (first_conf_rule_ids my_nic)")
    case True
    from public_address_decision_settled [OF assms(2,3,4) True]
    have "set_public_address az conf w = (Inr False, w0)"
      using run by simp
    with True same show ?thesis by (simp add: new_puts_def)
  next
    case False
    obtain res w1 where
      d: "public_address_decision az conf rules my_nic (first_conf_rule_ids my_nic)
           peer_nic (first_conf_rule_ids peer_nic) public_ip w0 = (res, w1)"
      by (cases "public_address_decision az conf rules my_nic (first_conf_rule_ids my_nic)
           peer_nic (first_conf_rule_ids peer_nic) public_ip w0") blast
    from public_address_decision_unsettled [OF assms(2,3,4) False d]
    have "res \<noteq> Inr False" .
    with False run d show ?thesis by simp
  qed
qed

theorem set_public_address_settled_witness:
  "fst (public_address_inputs settled_cloud conf_public world0)
     = Inr ([JStr ''/LB/Web''], my_primary_settled, peer_primary_plain, cluster_address)
   \<and> ready_nic_ok my_primary_settled \<and> ready_nic_ok peer_primary_plain
   \<and> list_all is_str [JStr ''/LB/Web'']
   \<and> fst (set_public_address settled_cloud conf_public world0) = Inr False
   \<and> new_puts world0 (snd (set_public_address settled_cloud conf_public world0)) = []"
proof -
  have a: "fst (public_address_inputs settled_cloud conf_public world0)
     = Inr ([JStr ''/LB/Web''], my_primary_settled, peer_primary_plain, cluster_address)"
    by code_simp
  have b: "ready_nic_ok my_primary_settled" by code_simp
  have c: "ready_nic_ok peer_primary_plain" by code_simp
  have d: "list_all is_str [JStr ''/LB/Web'']" by code_simp
  have e: "(\<not> truthy cluster_address \<or> truthy (first_conf_public_ip my_primary_settled))
           \<and> lower_ids [JStr ''/LB/Web''] \<subseteq> lower_ids (first_conf_rule_ids my_primary_settled)"
    by code_simp
  from set_public_address_settled [OF a b c d] e a b c d show ?thesis by blast
qed

text \<open>
  C9 as stated fails. The first configuration of my interface is bare, and the second
  one, flagged \<^verbatim>\<open>primary\<close>, already carries the cluster public address and the rule of the
  load balancer: the condition of the claim holds of the primary configuration, and
  yet the call writes the address and the rule into the first configuration, hands my
  interface to \<^verbatim>\<open>safe_arm_put\<close> and returns \<open>True\<close>.
\<close>

theorem set_public_address_first_conf_counterexample:
  "fst (public_address_inputs second_primary_cloud conf_public world0)
     = Inr ([JStr ''/LB/Web''], my_primary_second, peer_primary_plain, cluster_address)
   \<and> ready_nic_ok my_primary_second \<and> ready_nic_ok peer_primary_plain
   \<and> flagged_primary (spec_primary_conf my_primary_second)
   \<and> truthy (spec_primary_public_ip my_primary_second)
   \<and> lower_ids [JStr ''/LB/Web''] \<subseteq> lower_ids (spec_primary_rule_ids my_primary_second)
   \<and> fst (set_public_address second_primary_cloud conf_public world0) = Inr True
   \<and> map (\<lambda>x. (fst x, snd (snd x)))
        (new_puts world0 (snd (set_public_address second_primary_cloud conf_public world0)))
      = [(JStr ''/rg/nic1'', ''my NIC public IP association'')]"
  by code_simp

end
